theory Spec2Isabelle
  imports Complex_Main "HOL-Library.Word" "HOL-Library.Log_Nat"
begin

section \<open>Data model of \<open>compression_engine.py\<close>\<close>

text \<open>
  A Python \<open>str\<close> is a sequence of Unicode code points; a code point is modelled as a
  natural number and a string as a list of them.  A \<open>bytes\<close> object is a list of 8-bit
  words.  Dictionary codes and sizes are Python integers that never become negative in
  this program; they are natural numbers here.
\<close>

type_synonym symbol = nat
type_synonym pystr = "symbol list"
type_synonym byte = "8 word"

text \<open>The three encodings the service layer accepts (\<open>app.py\<close>, the check on the form field).\<close>

datatype encoding = Utf8 | Utf16 | Latin1

text \<open>
  Every exception the engine can raise is a value.  \<open>KeyError\<close> of a lookup in
  \<open>self.dictionary\<close> carries the string, of a lookup in \<open>self.reverse_dictionary\<close> the
  code.  \<open>InvalidCode\<close> is the \<open>ValueError("Invalid code in compressed data: ...")\<close> of
  \<open>decompress\<close>; \<open>StructError\<close> is \<open>struct.error\<close> of a value out of range of its format.
  \<open>CompressionFailed\<close> and \<open>DecompressionFailed\<close> are the two \<open>ValueError\<close>s in which
  the hybrid class wraps whatever the base class raised.
\<close>

datatype error =
    KeyError_dictionary pystr
  | KeyError_reverse nat
  | IndexError
  | InvalidCode nat
  | StructError nat
  | UnicodeEncodeError symbol
  | CompressionFailed error
  | DecompressionFailed error

text \<open>
  The mutable part of a compressor object: the two dictionaries and the code counter.
\<close>

record lzw_state =
  dictionary :: "pystr \<rightharpoonup> nat"
  reverse_dictionary :: "nat \<rightharpoonup> pystr"
  next_code :: nat

text \<open>
  The immutable part, fixed by \<open>__init__\<close>.  \<open>multilingual_dict\<close> is \<open>None\<close> for an object
  of class \<open>LZW77Compressor\<close>; for a \<open>HybridLZW77Compressor\<close> it holds the list
  \<open>all_patterns\<close> that \<open>reset_dictionary\<close> builds from the two sets of
  \<open>MultilingualDictionary\<close>.  Python does not fix the order in which a set of strings is
  enumerated, so the enumeration is part of the object.
\<close>

record compressor =
  max_dict_size :: nat
  encoding :: encoding
  multilingual_dict :: "pystr list option"

section \<open>The seed set\<close>

text \<open>
  \<open>MultilingualDictionary.common_words\<close> and \<open>common_patterns\<close>, each entry as its code
  points, in the order of first occurrence in the source (a set literal holds an entry
  once however often it is written).
\<close>

definition common_words :: "pystr list" where
  "common_words =
    [[116, 104, 101], [97, 110, 100], [105, 115], [105, 110], [116, 111], [111, 102],
     [97], [116, 104, 97, 116], [105, 116], [119, 105, 116, 104], [102, 111, 114], [97, 115],
     [119, 97, 115], [111, 110], [97, 114, 101], [101, 108], [108, 97], [100, 101],
     [113, 117, 101], [121], [101, 110], [117, 110], [101, 115], [115, 101],
     [110, 111], [116, 101], [108, 111], [108, 101], [100, 97], [115, 117],
     [101, 116], [224], [105, 108], [234, 116, 114, 101], [97, 118, 111, 105, 114],
     [112, 111, 117, 114],
     [100, 97, 110, 115], [99, 101], [115, 111, 110], [100, 101, 114], [100, 105, 101],
     [117, 110, 100],
     [100, 101, 110], [118, 111, 110], [122, 117], [100, 97, 115], [109, 105, 116],
     [115, 105, 99, 104],
     [100, 101, 115], [97, 117, 102], [102, 252, 114], [105, 115, 116], [105, 109], [111],
     [100, 111], [101, 109], [117, 109], [112, 97, 114, 97], [233], [99, 111, 109],
     [110, 227, 111], [117, 109, 97], [111, 115], [110, 97], [100, 105], [99, 104, 101],
     [232], [101], [112, 101, 114], [117, 110, 97], [100, 101, 108],
     [101, 115, 115, 101, 114, 101],
     [99, 111, 110], [1080], [1074], [1085, 1077], [1085, 1072], [1103],
     [1073, 1099, 1090, 1100], [1086, 1085], [1089], [1072], [1082, 1072, 1082], [1087, 1086],
     [1101, 1090, 1086], [1086, 1085, 1072], [1082], [1085, 1086], [30340], [19968],
     [26159], [22312], [19981], [20102], [26377], [21644],
     [20154], [36825], [20013], [22823], [20026], [19978],
     [20010], [1601, 1610], [1605, 1606], [1573, 1604, 1609], [1593, 1604, 1609], [1571, 1606],
     [1607, 1584, 1575], [1607, 1584, 1607], [1575, 1604, 1578, 1610], [1575, 1604, 1584, 1610],
     [1603, 1575, 1606], [1603, 1604],
     [1593, 1606], [1605, 1593], [1571, 1608], [1603, 1605, 1575]]"

definition common_patterns :: "pystr list" where
  "common_patterns =
    [[46, 32], [44, 32], [59, 32], [58, 32], [33, 32], [63, 32],
     [10], [13, 10], [9], [32, 32], [40, 41], [91, 93],
     [123, 125], [34, 34], [39, 39], [45, 45], [46, 46, 46], [32, 45, 32],
     [32, 47, 32]]"

definition all_patterns :: "pystr list" where
  "all_patterns = common_words @ common_patterns"

text \<open>
  The objects the service layer builds: \<open>HybridLZW77Compressor(encoding=encoding)\<close>, with
  the default \<open>max_dict_size\<close>; and a plain \<open>LZW77Compressor\<close>.
\<close>

definition HybridLZW77Compressor :: "nat \<Rightarrow> encoding \<Rightarrow> compressor" where
  "HybridLZW77Compressor n enc =
     \<lparr>max_dict_size = n, encoding = enc, multilingual_dict = Some all_patterns\<rparr>"

definition LZW77Compressor :: "nat \<Rightarrow> encoding \<Rightarrow> compressor" where
  "LZW77Compressor n enc =
     \<lparr>max_dict_size = n, encoding = enc, multilingual_dict = None\<rparr>"

section \<open>\<open>reset_dictionary\<close>\<close>

text \<open>
  \<open>bytes([i]).decode(self.encoding, errors='replace')\<close> for \<open>i\<close> in \<open>range(256)\<close>.  With
  the \<open>replace\<close> error handler the codec never raises: a byte that is not a complete
  character of the encoding decodes to U+FFFD.  Under UTF-8 that is every byte from 128
  on; under UTF-16 a single byte is always a truncated code unit; Latin-1 maps every
  byte to the code point of the same number.
\<close>

definition decode_byte :: "encoding \<Rightarrow> nat \<Rightarrow> pystr" where
  "decode_byte enc i =
     (case enc of
        Utf8 \<Rightarrow> (if i < 128 then [i] else [0xFFFD])
      | Utf16 \<Rightarrow> [0xFFFD]
      | Latin1 \<Rightarrow> [i])"

text \<open>The paired assignment \<open>dictionary[s] = code; reverse_dictionary[code] = s\<close>.\<close>

definition put_entry :: "pystr \<Rightarrow> nat \<Rightarrow> lzw_state \<Rightarrow> lzw_state" where
  "put_entry s code st =
     st\<lparr>dictionary := (dictionary st)(s \<mapsto> code),
        reverse_dictionary := (reverse_dictionary st)(code \<mapsto> s)\<rparr>"

text \<open>The same followed by \<open>self.next_code += 1\<close>, at the code \<open>self.next_code\<close>.\<close>

definition add_entry :: "pystr \<Rightarrow> lzw_state \<Rightarrow> lzw_state" where
  "add_entry s st = (put_entry s (next_code st) st)\<lparr>next_code := next_code st + 1\<rparr>"

definition empty_state :: lzw_state where
  "empty_state = \<lparr>dictionary = Map.empty, reverse_dictionary = Map.empty, next_code = 0\<rparr>"

text \<open>\<open>LZW77Compressor.reset_dictionary\<close>.  The \<open>except\<close> branch is never taken.\<close>

definition lzw77_reset_dictionary :: "compressor \<Rightarrow> lzw_state" where
  "lzw77_reset_dictionary c =
     (fold (\<lambda>i st. put_entry (decode_byte (encoding c) i) i st) [0..<256] empty_state)
       \<lparr>next_code := 256\<rparr>"

text \<open>\<open>HybridLZW77Compressor.reset_dictionary\<close>, over the enumeration \<open>pats\<close>.\<close>

definition seed_pattern :: "compressor \<Rightarrow> pystr \<Rightarrow> lzw_state \<Rightarrow> lzw_state" where
  "seed_pattern c pattern st =
     (if dictionary st pattern = None \<and> next_code st < max_dict_size c
      then add_entry pattern st else st)"

definition hybrid_reset_dictionary :: "compressor \<Rightarrow> pystr list \<Rightarrow> lzw_state" where
  "hybrid_reset_dictionary c pats = fold (seed_pattern c) pats (lzw77_reset_dictionary c)"

text \<open>\<open>self.reset_dictionary()\<close>, dispatched on the class of the object.\<close>

definition reset_dictionary :: "compressor \<Rightarrow> lzw_state" where
  "reset_dictionary c =
     (case multilingual_dict c of
        None \<Rightarrow> lzw77_reset_dictionary c
      | Some pats \<Rightarrow> hybrid_reset_dictionary c pats)"

section \<open>The code frame\<close>

text \<open>
  \<open>struct.pack('>H', n)\<close> and \<open>struct.pack('>I', n)\<close>: big-endian, two and four bytes;
  \<open>struct.error\<close> when the value does not fit.
\<close>

definition pack_H :: "nat \<Rightarrow> error + byte list" where
  "pack_H n =
     (if n < 65536 then Inr [word_of_nat (n div 256), word_of_nat (n mod 256)]
      else Inl (StructError n))"

definition pack_I :: "nat \<Rightarrow> error + byte list" where
  "pack_I n =
     (if n < 4294967296
      then Inr [word_of_nat (n div 16777216), word_of_nat (n div 65536 mod 256),
                word_of_nat (n div 256 mod 256), word_of_nat (n mod 256)]
      else Inl (StructError n))"

text \<open>\<open>struct.unpack\<close> of a big-endian unsigned integer, on a slice of the right length.\<close>

definition unpack_be :: "byte list \<Rightarrow> nat" where
  "unpack_be bs = foldl (\<lambda>acc b. acc * 256 + unat b) 0 bs"

text \<open>\<open>b''.join(struct.pack('>H', code) for code in codes)\<close>: the first failure aborts.\<close>

fun pack_codes :: "nat list \<Rightarrow> error + byte list" where
  "pack_codes [] = Inr []"
| "pack_codes (code # codes) =
     (case pack_H code of
        Inl e \<Rightarrow> Inl e
      | Inr b \<Rightarrow> (case pack_codes codes of Inl e \<Rightarrow> Inl e | Inr bs \<Rightarrow> Inr (b @ bs)))"

text \<open>\<open>_encode_codes\<close>; it reads \<open>self.next_code\<close>.\<close>

definition encode_codes :: "lzw_state \<Rightarrow> nat list \<Rightarrow> error + byte list" where
  "encode_codes st codes =
     (case pack_codes codes of
        Inl e \<Rightarrow> Inl e
      | Inr packed_codes \<Rightarrow>
          (case pack_I (length codes) of
             Inl e \<Rightarrow> Inl e
           | Inr h1 \<Rightarrow>
               (case pack_I (next_code st - 256) of
                  Inl e \<Rightarrow> Inl e
                | Inr h2 \<Rightarrow> Inr (h1 @ h2 @ packed_codes))))"

text \<open>
  The loop of \<open>_decode_codes\<close>: \<open>i\<close> runs over \<open>range(num_codes)\<close> and the loop breaks at the
  first \<open>i\<close> whose two bytes are not both present.
\<close>

function read_codes :: "nat \<Rightarrow> nat \<Rightarrow> byte list \<Rightarrow> nat list" where
  "read_codes i num_codes codes_data =
     (if i < num_codes then
        (if i * 2 + 2 \<le> length codes_data
         then unpack_be (take 2 (drop (i * 2) codes_data)) # read_codes (i + 1) num_codes codes_data
         else [])
      else [])"
  by pat_completeness auto
termination
  by (relation "measure (\<lambda>(i, num_codes, codes_data). num_codes - i)") auto

declare read_codes.simps [simp del]

definition decode_codes :: "byte list \<Rightarrow> nat list" where
  "decode_codes data =
     (if length data < 8 then []
      else read_codes 0 (unpack_be (take 4 data)) (drop 8 data))"

section \<open>\<open>decompress\<close>\<close>

text \<open>Subscription of a dictionary and of a string, each with its exception.\<close>

definition lookup_reverse :: "lzw_state \<Rightarrow> nat \<Rightarrow> error + pystr" where
  "lookup_reverse st code =
     (case reverse_dictionary st code of
        None \<Rightarrow> Inl (KeyError_reverse code)
      | Some s \<Rightarrow> Inr s)"

definition first_symbol :: "pystr \<Rightarrow> error + symbol" where
  "first_symbol s = (case s of [] \<Rightarrow> Inl IndexError | x # _ \<Rightarrow> Inr x)"

text \<open>
  The \<open>if/elif/else\<close> at the head of the loop body of \<open>decompress\<close>: the string a code
  stands for.
\<close>

definition resolve_code :: "lzw_state \<Rightarrow> nat \<Rightarrow> nat \<Rightarrow> error + pystr" where
  "resolve_code st old_code code =
     (case reverse_dictionary st code of
        Some s \<Rightarrow> Inr s
      | None \<Rightarrow>
          if code = next_code st then
            (case lookup_reverse st old_code of
               Inl e \<Rightarrow> Inl e
             | Inr p \<Rightarrow>
                 (case first_symbol p of
                    Inl e \<Rightarrow> Inl e
                  | Inr x \<Rightarrow> Inr (p @ [x])))
          else Inl (InvalidCode code))"

text \<open>
  The second half of the loop body: the new entry goes into the running dictionary, or,
  when that is full, into a fresh one.
\<close>

definition learn_entry :: "compressor \<Rightarrow> lzw_state \<Rightarrow> nat \<Rightarrow> pystr \<Rightarrow> error + lzw_state" where
  "learn_entry c st old_code string =
     (let st' = (if next_code st < max_dict_size c then st else reset_dictionary c)
      in case lookup_reverse st' old_code of
           Inl e \<Rightarrow> Inl e
         | Inr p \<Rightarrow>
             (case first_symbol string of
                Inl e \<Rightarrow> Inl e
              | Inr x \<Rightarrow> Inr (add_entry (p @ [x]) st')))"

text \<open>The loop over \<open>codes[1:]\<close>; \<open>result\<close> is the list of strings appended so far.\<close>

fun decode_loop ::
  "compressor \<Rightarrow> lzw_state \<Rightarrow> nat \<Rightarrow> pystr list \<Rightarrow> nat list \<Rightarrow> error + pystr" where
  "decode_loop c st old_code result [] = Inr (concat result)"
| "decode_loop c st old_code result (code # codes) =
     (case resolve_code st old_code code of
        Inl e \<Rightarrow> Inl e
      | Inr string \<Rightarrow>
          (case learn_entry c st old_code string of
             Inl e \<Rightarrow> Inl e
           | Inr st' \<Rightarrow> decode_loop c st' code (result @ [string]) codes))"

text \<open>\<open>LZW77Compressor.decompress\<close>.\<close>

definition lzw77_decompress :: "compressor \<Rightarrow> byte list \<Rightarrow> error + pystr" where
  "lzw77_decompress c compressed_data =
     (if compressed_data = [] then Inr []
      else
        let st = reset_dictionary c;
            codes = decode_codes compressed_data
        in case codes of
             [] \<Rightarrow> Inr []
           | old_code # rest \<Rightarrow>
               (case lookup_reverse st old_code of
                  Inl e \<Rightarrow> Inl e
                | Inr s \<Rightarrow> decode_loop c st old_code [s] rest))"

text \<open>\<open>HybridLZW77Compressor.decompress\<close>: any exception becomes the wrapper.\<close>

definition hybrid_decompress :: "compressor \<Rightarrow> byte list \<Rightarrow> error + pystr" where
  "hybrid_decompress c compressed_data =
     (case lzw77_decompress c compressed_data of
        Inl e \<Rightarrow> Inl (DecompressionFailed e)
      | Inr s \<Rightarrow> Inr s)"

section \<open>\<open>compress\<close>\<close>

text \<open>
  \<open>unicodedata.normalize('NFC', text)\<close>.  Every code point below U+0300, and every code
  point of the private-use plane 15, has canonical combining class 0 and no canonical
  decomposition that does not recompose to it, so a string of such code points is its
  own NFC form.  On any other string the normaliser is the parameter \<open>other\<close>.
\<close>

definition nfc_inert :: "symbol \<Rightarrow> bool" where
  "nfc_inert ch \<longleftrightarrow> ch < 0x300 \<or> (0xF0000 \<le> ch \<and> ch \<le> 0xFFFFD)"

definition normalize_NFC :: "(pystr \<Rightarrow> pystr) \<Rightarrow> pystr \<Rightarrow> pystr" where
  "normalize_NFC other text = (if list_all nfc_inert text then text else other text)"

text \<open>
  Subscription \<open>self.dictionary[s]\<close>.
\<close>

definition lookup_dictionary :: "lzw_state \<Rightarrow> pystr \<Rightarrow> error + nat" where
  "lookup_dictionary st s =
     (case dictionary st s of
        None \<Rightarrow> Inl (KeyError_dictionary s)
      | Some code \<Rightarrow> Inr code)"

text \<open>
  The first \<open>if\<close> of the loop body of \<open>compress\<close>: a character that is not a key becomes
  one, in the running dictionary or, when that is full, in a fresh one.
\<close>

definition admit_char :: "compressor \<Rightarrow> lzw_state \<Rightarrow> symbol \<Rightarrow> lzw_state" where
  "admit_char c st char =
     (if dictionary st [char] = None then
        (if next_code st < max_dict_size c then add_entry [char] st
         else
           (let st' = reset_dictionary c
            in if dictionary st' [char] = None then add_entry [char] st' else st'))
      else st)"

text \<open>
  The loop \<open>for char in text\<close>, with the variables it updates: the dictionary state,
  \<open>current_string\<close> and \<open>result\<close>.
\<close>

fun compress_loop ::
  "compressor \<Rightarrow> lzw_state \<Rightarrow> pystr \<Rightarrow> nat list \<Rightarrow> pystr
     \<Rightarrow> error + (lzw_state \<times> pystr \<times> nat list)" where
  "compress_loop c st current_string result [] = Inr (st, current_string, result)"
| "compress_loop c st current_string result (char # text) =
     (let st1 = admit_char c st char;
          new_string = current_string @ [char]
      in if dictionary st1 new_string \<noteq> None
         then compress_loop c st1 new_string result text
         else
           (case lookup_dictionary st1 current_string of
              Inl e \<Rightarrow> Inl e
            | Inr code \<Rightarrow>
                compress_loop c
                  (if next_code st1 < max_dict_size c then add_entry new_string st1
                   else reset_dictionary c)
                  [char] (result @ [code]) text))"

text \<open>\<open>LZW77Compressor.compress\<close>.\<close>

definition lzw77_compress ::
  "(pystr \<Rightarrow> pystr) \<Rightarrow> compressor \<Rightarrow> pystr \<Rightarrow> error + byte list" where
  "lzw77_compress other c text =
     (if text = [] then Inr []
      else
        (case compress_loop c (reset_dictionary c) [] [] (normalize_NFC other text) of
           Inl e \<Rightarrow> Inl e
         | Inr (st, current_string, result) \<Rightarrow>
             (if current_string \<noteq> [] then
                (case lookup_dictionary st current_string of
                   Inl e \<Rightarrow> Inl e
                 | Inr code \<Rightarrow> encode_codes st (result @ [code]))
              else encode_codes st result)))"

section \<open>\<open>preprocess_text\<close>\<close>

text \<open>
  The characters \<open>\s\<close> matches in a \<open>str\<close> pattern, which are also the ones \<open>str.strip()\<close>
  removes: those for which \<open>str.isspace\<close> holds.
\<close>

definition is_space :: "symbol \<Rightarrow> bool" where
  "is_space ch \<longleftrightarrow>
     (9 \<le> ch \<and> ch \<le> 13) \<or> (28 \<le> ch \<and> ch \<le> 32) \<or> ch = 0x85 \<or> ch = 0xA0 \<or> ch = 0x1680
     \<or> (0x2000 \<le> ch \<and> ch \<le> 0x200A) \<or> ch = 0x2028 \<or> ch = 0x2029 \<or> ch = 0x202F
     \<or> ch = 0x205F \<or> ch = 0x3000"

definition is_newline :: "symbol \<Rightarrow> bool" where
  "is_newline ch \<longleftrightarrow> ch = 10"

text \<open>
  \<open>re.sub(r'X+', repl, text)\<close> for a character class \<open>X\<close> and a one-character
  replacement: every maximal run of characters of the class becomes \<open>repl\<close>.
\<close>

function re_sub_runs :: "(symbol \<Rightarrow> bool) \<Rightarrow> symbol \<Rightarrow> pystr \<Rightarrow> pystr" where
  "re_sub_runs cls repl [] = []"
| "re_sub_runs cls repl (ch # text) =
     (if cls ch then repl # re_sub_runs cls repl (dropWhile cls text)
      else ch # re_sub_runs cls repl text)"
  by pat_completeness auto
termination
  by (relation "measure (\<lambda>(cls, repl, text). length text)")
     (auto simp: length_dropWhile_le less_Suc_eq_le)

definition strip :: "pystr \<Rightarrow> pystr" where
  "strip text = rev (dropWhile is_space (rev (dropWhile is_space text)))"

definition preprocess_text :: "(pystr \<Rightarrow> pystr) \<Rightarrow> pystr \<Rightarrow> pystr" where
  "preprocess_text other text =
     strip (re_sub_runs is_newline 10 (re_sub_runs is_space 32 (normalize_NFC other text)))"

text \<open>\<open>HybridLZW77Compressor.compress\<close>.\<close>

definition hybrid_compress ::
  "(pystr \<Rightarrow> pystr) \<Rightarrow> compressor \<Rightarrow> pystr \<Rightarrow> error + byte list" where
  "hybrid_compress other c text =
     (case lzw77_compress other c (preprocess_text other text) of
        Inl e \<Rightarrow> Inl (CompressionFailed e)
      | Inr data \<Rightarrow> Inr data)"

section \<open>\<open>get_compression_stats\<close>\<close>

text \<open>
  \<open>str.encode(encoding)\<close> with the default \<open>strict\<close> error handler, character by
  character.  A surrogate code point cannot be encoded in UTF-8 or UTF-16, a code point
  from 256 on cannot be encoded in Latin-1; a Python string holds no code point above
  U+10FFFF.  The \<open>utf-16\<close> codec writes a byte order mark and then the code units in the
  byte order of the machine, here little-endian.
\<close>

definition is_surrogate :: "symbol \<Rightarrow> bool" where
  "is_surrogate ch \<longleftrightarrow> 0xD800 \<le> ch \<and> ch \<le> 0xDFFF"

definition utf8_char :: "symbol \<Rightarrow> error + byte list" where
  "utf8_char ch =
     (if ch < 0x80 then Inr [word_of_nat ch]
      else if ch < 0x800 then Inr [word_of_nat (0xC0 + ch div 64), word_of_nat (0x80 + ch mod 64)]
      else if is_surrogate ch \<or> 0x10FFFF < ch then Inl (UnicodeEncodeError ch)
      else if ch < 0x10000 then
        Inr [word_of_nat (0xE0 + ch div 4096), word_of_nat (0x80 + ch div 64 mod 64),
             word_of_nat (0x80 + ch mod 64)]
      else
        Inr [word_of_nat (0xF0 + ch div 262144), word_of_nat (0x80 + ch div 4096 mod 64),
             word_of_nat (0x80 + ch div 64 mod 64), word_of_nat (0x80 + ch mod 64)])"

definition utf16_unit :: "nat \<Rightarrow> byte list" where
  "utf16_unit u = [word_of_nat (u mod 256), word_of_nat (u div 256)]"

definition utf16_char :: "symbol \<Rightarrow> error + byte list" where
  "utf16_char ch =
     (if is_surrogate ch \<or> 0x10FFFF < ch then Inl (UnicodeEncodeError ch)
      else if ch < 0x10000 then Inr (utf16_unit ch)
      else Inr (utf16_unit (0xD800 + (ch - 0x10000) div 1024) @
                utf16_unit (0xDC00 + (ch - 0x10000) mod 1024)))"

definition latin1_char :: "symbol \<Rightarrow> error + byte list" where
  "latin1_char ch = (if ch < 256 then Inr [word_of_nat ch] else Inl (UnicodeEncodeError ch))"

fun encode_chars :: "(symbol \<Rightarrow> error + byte list) \<Rightarrow> pystr \<Rightarrow> error + byte list" where
  "encode_chars f [] = Inr []"
| "encode_chars f (ch # s) =
     (case f ch of
        Inl e \<Rightarrow> Inl e
      | Inr b \<Rightarrow> (case encode_chars f s of Inl e \<Rightarrow> Inl e | Inr bs \<Rightarrow> Inr (b @ bs)))"

definition str_encode :: "encoding \<Rightarrow> pystr \<Rightarrow> error + byte list" where
  "str_encode enc s =
     (case enc of
        Utf8 \<Rightarrow> encode_chars utf8_char s
      | Utf16 \<Rightarrow>
          (case encode_chars utf16_char s of
             Inl e \<Rightarrow> Inl e
           | Inr bs \<Rightarrow> Inr ([0xFF, 0xFE] @ bs))
      | Latin1 \<Rightarrow> encode_chars latin1_char s)"

text \<open>
  Python's \<open>float\<close> is the IEEE 754 binary64 format.  A finite float is the rational
  number it denotes; an operation returns the exact result rounded to the nearest number
  with a 53-bit significand, ties to the even significand.  The sizes the statistics
  are computed from are lengths of Python objects, below \<open>2 ^ 63\<close>, so no operation here
  overflows or reaches the subnormal range, and neither is modelled.
\<close>

definition round_tie :: "rat \<Rightarrow> int \<Rightarrow> int" where
  "round_tie q f =
     (if q - of_int f < 1 / 2 then f
      else if 1 / 2 < q - of_int f then f + 1
      else if even f then f else f + 1)"

definition round_half_even :: "rat \<Rightarrow> int" where
  "round_half_even q = round_tie q \<lfloor>q\<rfloor>"

text \<open>For positive \<open>q\<close>, the exponent \<open>e\<close> with \<open>2 ^ e \<le> q < 2 ^ (e + 1)\<close>.\<close>

definition adjust_exponent :: "rat \<Rightarrow> int \<Rightarrow> int" where
  "adjust_exponent q e = (if q < 2 powi e then e - 1 else e)"

definition binary_exponent :: "rat \<Rightarrow> int" where
  "binary_exponent q =
     adjust_exponent q (bitlen (fst (quotient_of q)) - bitlen (snd (quotient_of q)))"

definition round_to_unit :: "rat \<Rightarrow> rat \<Rightarrow> rat" where
  "round_to_unit u q = of_int (round_half_even (q / u)) * u"

definition to_double :: "rat \<Rightarrow> rat" where
  "to_double q =
     (if q = 0 then 0
      else sgn q * round_to_unit (2 powi (binary_exponent \<bar>q\<bar> - 52)) \<bar>q\<bar>)"

text \<open>
  True division of two integers, subtraction and multiplication of floats, and
  \<open>round(x, 2)\<close>, which rounds the exact value of \<open>x\<close> to two decimals, ties to even, and
  returns the float nearest to that decimal.
\<close>

definition int_truediv :: "nat \<Rightarrow> nat \<Rightarrow> rat" where
  "int_truediv a b = to_double (of_nat a / of_nat b)"

definition float_sub :: "rat \<Rightarrow> rat \<Rightarrow> rat" where
  "float_sub x y = to_double (x - y)"

definition float_mul :: "rat \<Rightarrow> rat \<Rightarrow> rat" where
  "float_mul x y = to_double (x * y)"

definition round_2 :: "rat \<Rightarrow> rat" where
  "round_2 x = to_double (of_int (round_half_even (x * 100)) / 100)"

text \<open>
  The dictionary \<open>get_compression_stats\<close> returns, with the keys of the source, and the
  function itself.  The ratio is a float, or the integer 0 when the text is empty; both
  are given by their value.
\<close>

record compression_stats =
  original_size :: nat
  compressed_size :: nat
  compression_ratio :: rat
  space_saved :: int

definition get_compression_stats ::
  "compressor \<Rightarrow> pystr \<Rightarrow> byte list \<Rightarrow> error + compression_stats" where
  "get_compression_stats c original_text compressed_data =
     (case str_encode (encoding c) original_text of
        Inl e \<Rightarrow> Inl e
      | Inr encoded \<Rightarrow>
          (if length encoded = 0 then
             Inr \<lparr>original_size = 0, compressed_size = length compressed_data,
                  compression_ratio = 0, space_saved = 0\<rparr>
           else
             Inr \<lparr>original_size = length encoded, compressed_size = length compressed_data,
                  compression_ratio =
                    round_2 (float_mul
                      (float_sub 1 (int_truediv (length compressed_data) (length encoded))) 100),
                  space_saved = int (length encoded) - int (length compressed_data)\<rparr>))"

section \<open>Auxiliary notions\<close>

text \<open>
  The number of dictionary entries the loop of \<open>compress\<close> itself inserts while it reads
  a text: one for each character it has to admit, one for each string it adds after
  emitting a code.  This is the quantity the specification calls the entries learned
  during a compression call; the seed entries of \<open>reset_dictionary\<close> are not among them.
  The function follows \<open>compress_loop\<close> branch by branch.
\<close>

fun learned_loop :: "compressor \<Rightarrow> lzw_state \<Rightarrow> pystr \<Rightarrow> pystr \<Rightarrow> nat" where
  "learned_loop c st current_string [] = 0"
| "learned_loop c st current_string (char # text) =
     (let st1 = admit_char c st char;
          admitted = (if dictionary st [char] = None \<and>
                         (next_code st < max_dict_size c \<or>
                          dictionary (reset_dictionary c) [char] = None)
                      then 1 else 0);
          new_string = current_string @ [char]
      in if dictionary st1 new_string \<noteq> None
         then admitted + learned_loop c st1 new_string text
         else if next_code st1 < max_dict_size c
           then admitted + 1 + learned_loop c (add_entry new_string st1) [char] text
           else admitted + learned_loop c (reset_dictionary c) [char] text)"

definition learned_entries :: "(pystr \<Rightarrow> pystr) \<Rightarrow> compressor \<Rightarrow> pystr \<Rightarrow> nat" where
  "learned_entries other c text =
     learned_loop c (reset_dictionary c) [] (normalize_NFC other text)"

text \<open>
  The table the first loop of \<open>reset_dictionary\<close> has built after \<open>n\<close> rounds, for a
  decoder \<open>f\<close> of single bytes.
\<close>

definition byte_table :: "(nat \<Rightarrow> pystr) \<Rightarrow> nat \<Rightarrow> lzw_state" where
  "byte_table f n = fold (\<lambda>i st. put_entry (f i) i st) [0..<n] empty_state"

text \<open>The codes in use are exactly those below \<open>next_code\<close>.\<close>

definition dense :: "lzw_state \<Rightarrow> bool" where
  "dense st \<longleftrightarrow> dom (reverse_dictionary st) = {..<next_code st}"

text \<open>Every key of the forward dictionary consists of code points below \<open>b\<close>.\<close>

definition keys_below :: "symbol \<Rightarrow> lzw_state \<Rightarrow> bool" where
  "keys_below b st \<longleftrightarrow> (\<forall>k x. dictionary st k \<noteq> None \<longrightarrow> x \<in> set k \<longrightarrow> x < b)"

section \<open>What \<open>reset_dictionary\<close> builds\<close>

lemma dictionary_put_entry [simp]:
  "dictionary (put_entry s code st) k = (if k = s then Some code else dictionary st k)"
  by (simp add: put_entry_def)

lemma reverse_put_entry [simp]:
  "reverse_dictionary (put_entry s code st) i = (if i = code then Some s else reverse_dictionary st i)"
  by (simp add: put_entry_def)

lemma next_code_put_entry [simp]: "next_code (put_entry s code st) = next_code st"
  by (simp add: put_entry_def)

lemma dictionary_add_entry [simp]:
  "dictionary (add_entry s st) k = (if k = s then Some (next_code st) else dictionary st k)"
  by (simp add: add_entry_def)

lemma reverse_add_entry [simp]:
  "reverse_dictionary (add_entry s st) i =
     (if i = next_code st then Some s else reverse_dictionary st i)"
  by (simp add: add_entry_def)

lemma next_code_add_entry [simp]: "next_code (add_entry s st) = Suc (next_code st)"
  by (simp add: add_entry_def)

lemma byte_table_Suc: "byte_table f (Suc n) = put_entry (f n) n (byte_table f n)"
  by (simp add: byte_table_def)

lemma reverse_byte_table:
  "reverse_dictionary (byte_table f n) i = (if i < n then Some (f i) else None)"
  by (induction n) (auto simp: byte_table_Suc, simp add: byte_table_def empty_state_def)

lemma dictionary_byte_table_None:
  "(\<And>i. i < n \<Longrightarrow> f i \<noteq> s) \<Longrightarrow> dictionary (byte_table f n) s = None"
  by (induction n) (auto simp: byte_table_Suc, simp add: byte_table_def empty_state_def)

lemma dictionary_byte_table_Some:
  "i < n \<Longrightarrow> f i = s \<Longrightarrow> (\<And>j. i < j \<Longrightarrow> j < n \<Longrightarrow> f j \<noteq> s)
     \<Longrightarrow> dictionary (byte_table f n) s = Some i"
proof (induction n)
  case 0
  then show ?case by simp
next
  case (Suc n)
  show ?case
  proof (cases "i = n")
    case True
    with Suc.prems show ?thesis by (simp add: byte_table_Suc)
  next
    case False
    with Suc.prems have less: "i < n" by simp
    have neq: "f n \<noteq> s" using Suc.prems(3) [of n] less by simp
    have "dictionary (byte_table f n) s = Some i"
      using Suc.IH [OF less Suc.prems(2)] Suc.prems(3) by simp
    with neq show ?thesis by (auto simp: byte_table_Suc)
  qed
qed

lemma lzw77_reset_byte_table:
  "lzw77_reset_dictionary c = (byte_table (decode_byte (encoding c)) 256)\<lparr>next_code := 256\<rparr>"
  by (simp add: lzw77_reset_dictionary_def byte_table_def)

lemma next_code_lzw77_reset [simp]: "next_code (lzw77_reset_dictionary c) = 256"
  by (simp add: lzw77_reset_byte_table)

lemma reverse_lzw77_reset:
  "reverse_dictionary (lzw77_reset_dictionary c) i =
     (if i < 256 then Some (decode_byte (encoding c) i) else None)"
  by (simp add: lzw77_reset_byte_table reverse_byte_table)

lemma dictionary_lzw77_reset_Utf8:
  assumes "encoding c = Utf8"
  shows "dictionary (lzw77_reset_dictionary c) s =
     (case s of
        [x] \<Rightarrow> if x < 128 then Some x else if x = 0xFFFD then Some 255 else None
      | _ \<Rightarrow> None)"
proof -
  let ?f = "decode_byte Utf8"
  have len: "length (?f i) = 1" for i by (simp add: decode_byte_def)
  show ?thesis
  proof (cases s)
    case Nil
    have "dictionary (byte_table ?f 256) [] = None"
      by (rule dictionary_byte_table_None) (simp add: decode_byte_def)
    with Nil assms show ?thesis by (simp add: lzw77_reset_byte_table)
  next
    case (Cons x xs)
    show ?thesis
    proof (cases xs)
      case (Cons y ys)
      have "dictionary (byte_table ?f 256) (x # y # ys) = None"
        by (rule dictionary_byte_table_None) (simp add: decode_byte_def)
      with Cons \<open>s = x # xs\<close> assms show ?thesis by (simp add: lzw77_reset_byte_table)
    next
      case Nil
      consider "x < 128" | "x = 0xFFFD" | "\<not> x < 128" "x \<noteq> 0xFFFD" by blast
      then have "dictionary (byte_table ?f 256) [x] =
          (if x < 128 then Some x else if x = 0xFFFD then Some 255 else None)"
      proof cases
        case 1
        have "dictionary (byte_table ?f 256) [x] = Some x"
          by (rule dictionary_byte_table_Some) (use 1 in \<open>auto simp: decode_byte_def\<close>)
        with 1 show ?thesis by simp
      next
        case 2
        have "dictionary (byte_table ?f 256) [x] = Some 255"
          by (rule dictionary_byte_table_Some) (use 2 in \<open>auto simp: decode_byte_def\<close>)
        with 2 show ?thesis by simp
      next
        case 3
        have "dictionary (byte_table ?f 256) [x] = None"
          by (rule dictionary_byte_table_None) (use 3 in \<open>auto simp: decode_byte_def\<close>)
        with 3 show ?thesis by simp
      qed
      with Nil \<open>s = x # xs\<close> assms show ?thesis by (simp add: lzw77_reset_byte_table)
    qed
  qed
qed

lemma next_code_seed_pattern_le: "next_code st \<le> next_code (seed_pattern c p st)"
  by (simp add: seed_pattern_def)

lemma next_code_fold_seed_ge: "next_code st \<le> next_code (fold (seed_pattern c) pats st)"
proof (induction pats arbitrary: st)
  case Nil
  show ?case by simp
next
  case (Cons p pats)
  have "next_code st \<le> next_code (seed_pattern c p st)"
    by (rule next_code_seed_pattern_le)
  also have "\<dots> \<le> next_code (fold (seed_pattern c) pats (seed_pattern c p st))"
    by (rule Cons.IH)
  finally show ?case by simp
qed

lemma next_code_fold_seed_le:
  "next_code (fold (seed_pattern c) pats st) \<le> next_code st + length pats"
proof (induction pats arbitrary: st)
  case Nil
  show ?case by simp
next
  case (Cons p pats)
  have "next_code (fold (seed_pattern c) pats (seed_pattern c p st))
          \<le> next_code (seed_pattern c p st) + length pats"
    by (rule Cons.IH)
  also have "\<dots> \<le> next_code st + length (p # pats)"
    by (simp add: seed_pattern_def)
  finally show ?case by simp
qed

lemma dictionary_fold_seed_other:
  "k \<notin> set pats \<Longrightarrow> dictionary (fold (seed_pattern c) pats st) k = dictionary st k"
  by (induction pats arbitrary: st) (auto simp: seed_pattern_def)

lemma dictionary_seed_pattern_keep:
  "dictionary st k = Some v \<Longrightarrow> dictionary (seed_pattern c p st) k = Some v"
  by (auto simp: seed_pattern_def)

lemma dictionary_fold_seed_keep:
  "dictionary st k = Some v \<Longrightarrow> dictionary (fold (seed_pattern c) pats st) k = Some v"
proof (induction pats arbitrary: st)
  case Nil
  then show ?case by simp
next
  case (Cons p pats)
  from Cons.prems have "dictionary (seed_pattern c p st) k = Some v"
    by (rule dictionary_seed_pattern_keep)
  then have "dictionary (fold (seed_pattern c) pats (seed_pattern c p st)) k = Some v"
    by (rule Cons.IH)
  then show ?case by simp
qed

lemma reverse_fold_seed_below:
  "i < next_code st \<Longrightarrow>
     reverse_dictionary (fold (seed_pattern c) pats st) i = reverse_dictionary st i"
proof (induction pats arbitrary: st)
  case Nil
  show ?case by simp
next
  case (Cons p pats)
  have "i < next_code (seed_pattern c p st)"
    using Cons.prems next_code_seed_pattern_le [of st c p] by simp
  then have "reverse_dictionary (fold (seed_pattern c) pats (seed_pattern c p st)) i
               = reverse_dictionary (seed_pattern c p st) i"
    by (rule Cons.IH)
  also have "\<dots> = reverse_dictionary st i"
    using Cons.prems by (simp add: seed_pattern_def)
  finally show ?case by simp
qed

lemma dense_add_entry: "dense st \<Longrightarrow> dense (add_entry s st)"
proof -
  assume "dense st"
  then have "dom (reverse_dictionary st) = {..<next_code st}" by (simp add: dense_def)
  moreover have "dom (reverse_dictionary (add_entry s st))
      = insert (next_code st) (dom (reverse_dictionary st))"
    by (simp add: add_entry_def put_entry_def)
  ultimately show ?thesis by (simp add: dense_def lessThan_Suc)
qed

lemma dense_fold_seed: "dense st \<Longrightarrow> dense (fold (seed_pattern c) pats st)"
  by (induction pats arbitrary: st) (auto simp: seed_pattern_def dense_add_entry)

lemma dense_lzw77_reset: "dense (lzw77_reset_dictionary c)"
  by (auto simp: dense_def reverse_lzw77_reset dom_def)

lemma dense_reset: "dense (reset_dictionary c)"
  by (simp add: reset_dictionary_def hybrid_reset_dictionary_def dense_fold_seed
      dense_lzw77_reset split: option.split)

lemma next_code_fold_seed_count:
  "distinct pats \<Longrightarrow> next_code st + length pats \<le> max_dict_size c \<Longrightarrow>
     next_code (fold (seed_pattern c) pats st)
       = next_code st + length (filter (\<lambda>p. dictionary st p = None) pats)"
proof (induction pats arbitrary: st)
  case Nil
  show ?case by simp
next
  case (Cons p pats)
  let ?st = "seed_pattern c p st"
  have same: "filter (\<lambda>q. dictionary ?st q = None) pats = filter (\<lambda>q. dictionary st q = None) pats"
    using Cons.prems(1) by (intro filter_cong) (auto simp: seed_pattern_def)
  have room: "next_code ?st + length pats \<le> max_dict_size c"
    using Cons.prems(2) by (simp add: seed_pattern_def)
  have "next_code (fold (seed_pattern c) pats ?st)
          = next_code ?st + length (filter (\<lambda>q. dictionary ?st q = None) pats)"
    using Cons.prems(1) room by (intro Cons.IH) simp_all
  then have ih: "next_code (fold (seed_pattern c) pats ?st)
          = next_code ?st + length (filter (\<lambda>q. dictionary st q = None) pats)"
    by (simp only: same)
  show ?case
  proof (cases "dictionary st p = None")
    case True
    with Cons.prems(2) have "?st = add_entry p st" by (simp add: seed_pattern_def)
    with ih True show ?thesis by simp
  next
    case False
    then have "?st = st" by (auto simp: seed_pattern_def)
    with ih False show ?thesis by simp
  qed
qed

lemma distinct_all_patterns: "distinct all_patterns"
  unfolding all_patterns_def common_words_def common_patterns_def by simp

lemma length_all_patterns: "length all_patterns = 137"
  unfolding all_patterns_def common_words_def common_patterns_def by simp

lemma next_code_reset_default:
  "next_code (reset_dictionary (HybridLZW77Compressor 65536 Utf8)) = 387"
proof -
  let ?c = "HybridLZW77Compressor 65536 Utf8"
  have enc: "encoding ?c = Utf8" by (simp add: HybridLZW77Compressor_def)
  have "length (filter (\<lambda>p. dictionary (lzw77_reset_dictionary ?c) p = None) all_patterns) = 131"
    unfolding dictionary_lzw77_reset_Utf8 [OF enc]
    unfolding all_patterns_def common_words_def common_patterns_def by simp
  moreover have "next_code (lzw77_reset_dictionary ?c) + length all_patterns \<le> max_dict_size ?c"
    by (simp add: length_all_patterns HybridLZW77Compressor_def)
  ultimately show ?thesis
    by (simp add: reset_dictionary_def hybrid_reset_dictionary_def
        next_code_fold_seed_count [OF distinct_all_patterns] HybridLZW77Compressor_def)
qed

lemma dictionary_reset_keep:
  "dictionary (lzw77_reset_dictionary c) k = Some v \<Longrightarrow> dictionary (reset_dictionary c) k = Some v"
  by (simp add: reset_dictionary_def hybrid_reset_dictionary_def dictionary_fold_seed_keep
      split: option.split)

lemma dictionary_reset_other:
  "multilingual_dict c = Some pats \<Longrightarrow> k \<notin> set pats \<Longrightarrow>
     dictionary (reset_dictionary c) k = dictionary (lzw77_reset_dictionary c) k"
  by (simp add: reset_dictionary_def hybrid_reset_dictionary_def dictionary_fold_seed_other)

lemma next_code_reset_ge: "256 \<le> next_code (reset_dictionary c)"
  using next_code_fold_seed_ge [of "lzw77_reset_dictionary c" c]
  by (simp add: reset_dictionary_def hybrid_reset_dictionary_def split: option.split)

lemma reverse_reset_below:
  "i < 256 \<Longrightarrow> reverse_dictionary (reset_dictionary c) i = Some (decode_byte (encoding c) i)"
  by (simp add: reset_dictionary_def hybrid_reset_dictionary_def reverse_fold_seed_below
      reverse_lzw77_reset split: option.split)

lemma reverse_dense_None:
  assumes "dense st" and "next_code st \<le> i"
  shows "reverse_dictionary st i = None"
proof -
  from assms have "i \<notin> dom (reverse_dictionary st)" by (simp add: dense_def)
  then show ?thesis by (simp add: domIff)
qed

lemma reverse_reset_None:
  "next_code (reset_dictionary c) \<le> i \<Longrightarrow> reverse_dictionary (reset_dictionary c) i = None"
  by (rule reverse_dense_None [OF dense_reset])

lemma default_utf8_fields:
  "max_dict_size (HybridLZW77Compressor 65536 Utf8) = 65536"
  "encoding (HybridLZW77Compressor 65536 Utf8) = Utf8"
  "multilingual_dict (HybridLZW77Compressor 65536 Utf8) = Some all_patterns"
  by (simp_all add: HybridLZW77Compressor_def)

lemma not_seed_241: "[241] \<notin> set all_patterns" "[97, 241] \<notin> set all_patterns"
  unfolding all_patterns_def common_words_def common_patterns_def by simp_all

lemma dict_default:
  "dictionary (reset_dictionary (HybridLZW77Compressor 65536 Utf8)) [97] = Some 97"
  "dictionary (reset_dictionary (HybridLZW77Compressor 65536 Utf8)) [241] = None"
  "dictionary (reset_dictionary (HybridLZW77Compressor 65536 Utf8)) [97, 241] = None"
  by (simp_all add: dictionary_reset_keep dictionary_reset_other [OF default_utf8_fields(3)]
      not_seed_241 dictionary_lzw77_reset_Utf8 default_utf8_fields)

lemma rev_default:
  "reverse_dictionary (reset_dictionary (HybridLZW77Compressor 65536 Utf8)) 97 = Some [97]"
  "reverse_dictionary (reset_dictionary (HybridLZW77Compressor 65536 Utf8)) 387 = None"
  by (simp_all add: reverse_reset_below reverse_reset_None next_code_reset_default decode_byte_def
      default_utf8_fields)

lemma compress_a_ntilde:
  "hybrid_compress (\<lambda>t. t) (HybridLZW77Compressor 65536 Utf8) [97, 241]
     = Inr [0, 0, 0, 2, 0, 0, 0, 133, 0, 97, 1, 131]"
  by (simp add: hybrid_compress_def lzw77_compress_def preprocess_text_def normalize_NFC_def
      nfc_inert_def strip_def is_space_def is_newline_def admit_char_def lookup_dictionary_def
      dict_default next_code_reset_default default_utf8_fields encode_codes_def pack_H_def pack_I_def)

lemma decompress_a_ntilde:
  "hybrid_decompress (HybridLZW77Compressor 65536 Utf8) [0, 0, 0, 2, 0, 0, 0, 133, 0, 97, 1, 131] = Inr [97, 97, 97]"
  by (simp add: hybrid_decompress_def lzw77_decompress_def decode_codes_def read_codes.simps
      unpack_be_def lookup_reverse_def resolve_code_def learn_entry_def first_symbol_def
      rev_default next_code_reset_default default_utf8_fields)

section \<open>Reading a frame\<close>

lemma decode_short: "length data < 8 \<Longrightarrow> decode_codes data = []"
  by (simp add: decode_codes_def)

text \<open>
  Claim C10.  For every byte string shorter than 8 bytes, the empty one included, the
  frame reader yields the empty code list and \<open>decompress\<close>, of the base class and of
  the hybrid class alike, returns the empty string without raising.
\<close>

theorem short_input_decompresses_to_empty:
  "length compressed_data < 8 \<Longrightarrow>
     decode_codes compressed_data = [] \<and>
     lzw77_decompress c compressed_data = Inr [] \<and>
     hybrid_decompress c compressed_data = Inr []"
  by (simp add: decode_codes_def lzw77_decompress_def hybrid_decompress_def)

text \<open>The claim at a three-byte input.\<close>

theorem short_input_decompresses_to_empty_witness:
  "length [1, 2, 3 :: byte] < 8 \<and>
   decode_codes [1, 2, 3] = [] \<and>
   lzw77_decompress (HybridLZW77Compressor 65536 Utf8) [1, 2, 3] = Inr [] \<and>
   hybrid_decompress (HybridLZW77Compressor 65536 Utf8) [1, 2, 3] = Inr []"
  using short_input_decompresses_to_empty [of "[1, 2, 3]" "HybridLZW77Compressor 65536 Utf8"]
  by simp

lemma read_codes_map:
  "read_codes i num_codes codes_data =
     map (\<lambda>j. unpack_be (take 2 (drop (j * 2) codes_data)))
       [i..<min num_codes (length codes_data div 2)]"
proof (induction i num_codes codes_data rule: read_codes.induct)
  case (1 i num_codes codes_data)
  show ?case
  proof (cases "i < num_codes \<and> i * 2 + 2 \<le> length codes_data")
    case True
    then have lt: "i < min num_codes (length codes_data div 2)" by auto
    have "read_codes i num_codes codes_data =
        unpack_be (take 2 (drop (i * 2) codes_data)) # read_codes (i + 1) num_codes codes_data"
      using True by (subst read_codes.simps) simp
    also have "read_codes (i + 1) num_codes codes_data =
        map (\<lambda>j. unpack_be (take 2 (drop (j * 2) codes_data)))
          [i + 1..<min num_codes (length codes_data div 2)]"
      using True by (intro "1.IH") simp_all
    finally show ?thesis using lt by (simp add: upt_conv_Cons)
  next
    case False
    then have "min num_codes (length codes_data div 2) \<le> i" by (auto simp: min_def)
    then have "[i..<min num_codes (length codes_data div 2)] = []" by simp
    moreover have "read_codes i num_codes codes_data = []"
      using False by (subst read_codes.simps) auto
    ultimately show ?thesis by (simp only: list.map)
  qed
qed

lemma decode_codes_map:
  "decode_codes data =
     (if length data < 8 then []
      else map (\<lambda>j. unpack_be (take 2 (drop (j * 2) (drop 8 data))))
             [0..<min (unpack_be (take 4 data)) ((length data - 8) div 2)])"
  by (simp add: decode_codes_def read_codes_map)

text \<open>
  Claim C6, as amended.  The frame reader never reports a malformed frame.  On fewer than
  8 bytes it returns the empty list; otherwise it returns the first \<open>min count k\<close> codes
  of the payload, where \<open>count\<close> is the number the header declares and \<open>k\<close> the number
  of complete 2-byte codes present: a payload shorter than declared is read up to its
  last complete code, and bytes beyond the declared count are ignored.
\<close>

theorem decode_codes_truncates:
  "decode_codes data =
     (if length data < 8 then []
      else map (\<lambda>j. unpack_be (take 2 (drop (j * 2) (drop 8 data))))
             [0..<min (unpack_be (take 4 data)) ((length data - 8) div 2)])"
  by (rule decode_codes_map)

text \<open>
  Claim C6, as stated, fails.  A frame that declares two codes and holds one is decoded
  to that one code's string, and a three-byte input to the empty string; neither raises.
\<close>

theorem truncated_frame_is_decoded:
  "decode_codes [0, 0, 0, 2, 0, 0, 0, 0, 0, 97] = [97] \<and>
   hybrid_decompress (HybridLZW77Compressor 65536 Utf8) [0, 0, 0, 2, 0, 0, 0, 0, 0, 97] = Inr [97] \<and>
   hybrid_decompress (HybridLZW77Compressor 65536 Utf8) [0, 0, 0] = Inr []"
  by (simp add: hybrid_decompress_def lzw77_decompress_def decode_codes_map
      unpack_be_def lookup_reverse_def reverse_reset_below decode_byte_def
      HybridLZW77Compressor_def)

section \<open>Claims that fail on the code\<close>

lemma preprocess_a_ntilde: "preprocess_text (\<lambda>t. t) [97, 241] = [97, 241]"
  by (simp add: preprocess_text_def normalize_NFC_def nfc_inert_def strip_def is_space_def
      is_newline_def)

text \<open>
  Claim C1 asks that decompressing a compressed text gives back the preprocessed text.
  With the default dictionary size and UTF-8, the two-character text U+0061 U+00F1 is its
  own preprocessed form and compresses to the codes 97 and 387: the encoder admitted
  U+00F1 as entry 387, which the decoder does not have.  The decoder takes 387 for the
  self-referential code and returns the three characters U+0061 U+0061 U+0061.
\<close>

theorem round_trip_fails_on_new_symbol:
  "hybrid_compress (\<lambda>t. t) (HybridLZW77Compressor 65536 Utf8) [97, 241]
     = Inr [0, 0, 0, 2, 0, 0, 0, 133, 0, 97, 1, 131] \<and>
   hybrid_decompress (HybridLZW77Compressor 65536 Utf8) [0, 0, 0, 2, 0, 0, 0, 133, 0, 97, 1, 131]
     = Inr [97, 97, 97] \<and>
   preprocess_text (\<lambda>t. t) [97, 241] = [97, 241]"
  by (simp only: compress_a_ntilde decompress_a_ntilde preprocess_a_ntilde simp_thms)

lemma dictionary_reset_Utf8_replacement:
  "encoding c = Utf8 \<Longrightarrow> dictionary (reset_dictionary c) [0xFFFD] = Some 255"
  by (rule dictionary_reset_keep) (simp add: dictionary_lzw77_reset_Utf8)

text \<open>
  Claim C3 asks that the two dictionaries are inverse bijections over the codes below
  \<open>next_code\<close>.  Right after \<open>reset_dictionary\<close> under UTF-8 the distinct codes 128 and
  129 stand for the same string U+FFFD, which the forward dictionary maps to 255.
\<close>

theorem utf8_reset_not_bijective:
  "128 < next_code (reset_dictionary (HybridLZW77Compressor 65536 Utf8)) \<and>
   129 < next_code (reset_dictionary (HybridLZW77Compressor 65536 Utf8)) \<and>
   reverse_dictionary (reset_dictionary (HybridLZW77Compressor 65536 Utf8)) 128 = Some [0xFFFD] \<and>
   reverse_dictionary (reset_dictionary (HybridLZW77Compressor 65536 Utf8)) 129 = Some [0xFFFD] \<and>
   dictionary (reset_dictionary (HybridLZW77Compressor 65536 Utf8)) [0xFFFD] = Some 255"
  by (simp add: next_code_reset_default reverse_reset_below decode_byte_def
      dictionary_reset_Utf8_replacement default_utf8_fields)

text \<open>
  Claim C4 asks that \<open>reset_dictionary\<close> skips the byte values that are not valid
  standalone characters of the encoding.  It skips none: all 256 codes are assigned, and
  an invalid byte (every byte from 128 on under UTF-8, every byte under UTF-16) is given
  the string U+FFFD.
\<close>

theorem utf8_reset_skips_no_byte:
  "dom (reverse_dictionary (lzw77_reset_dictionary (LZW77Compressor 65536 Utf8))) = {..<256} \<and>
   reverse_dictionary (lzw77_reset_dictionary (LZW77Compressor 65536 Utf8)) 128 = Some [0xFFFD] \<and>
   reverse_dictionary (lzw77_reset_dictionary (LZW77Compressor 65536 Utf8)) 255 = Some [0xFFFD] \<and>
   reverse_dictionary (reset_dictionary (HybridLZW77Compressor 65536 Utf8)) 128 = Some [0xFFFD] \<and>
   reverse_dictionary (reset_dictionary (HybridLZW77Compressor 65536 Utf16)) 97 = Some [0xFFFD]"
proof -
  have "dom (reverse_dictionary (lzw77_reset_dictionary (LZW77Compressor 65536 Utf8))) = {..<256}"
    using dense_lzw77_reset [of "LZW77Compressor 65536 Utf8"] by (simp add: dense_def)
  then show ?thesis
    by (simp add: reverse_lzw77_reset reverse_reset_below decode_byte_def
        LZW77Compressor_def HybridLZW77Compressor_def)
qed

lemma re_sub_runs_no_class:
  "x \<in> set (re_sub_runs cls repl s) \<Longrightarrow> cls x \<Longrightarrow> x = repl"
proof (induction cls repl s rule: re_sub_runs.induct)
  case (1 cls repl)
  then show ?case by simp
next
  case (2 cls repl ch s)
  then show ?case by (auto split: if_splits)
qed

lemma re_sub_runs_id: "\<forall>x\<in>set s. \<not> cls x \<Longrightarrow> re_sub_runs cls repl s = s"
  by (induction s) auto

lemma set_strip: "set (strip s) \<subseteq> set s"
proof -
  have "set (strip s) \<subseteq> set (rev (dropWhile is_space s))"
    unfolding strip_def using set_dropWhileD by fastforce
  also have "\<dots> \<subseteq> set s" using set_dropWhileD by fastforce
  finally show ?thesis .
qed

text \<open>No newline is left in any preprocessed text: the second substitution finds none.\<close>

lemma newline_never_survives: "10 \<notin> set (preprocess_text other s)"
proof
  let ?t = "re_sub_runs is_space 32 (normalize_NFC other s)"
  have no_nl: "\<not> is_newline x" if "x \<in> set ?t" for x
  proof
    assume "is_newline x"
    then have "x = 10" by (simp add: is_newline_def)
    then have "is_space x" by (simp add: is_space_def)
    with that have "x = 32" by (rule re_sub_runs_no_class)
    with \<open>x = 10\<close> show False by simp
  qed
  assume "10 \<in> set (preprocess_text other s)"
  then have "10 \<in> set (re_sub_runs is_newline 10 ?t)"
    unfolding preprocess_text_def using set_strip by blast
  moreover have "re_sub_runs is_newline 10 ?t = ?t"
    using no_nl by (intro re_sub_runs_id) blast
  ultimately have "10 \<in> set ?t" by simp
  then have "\<not> is_newline 10" by (rule no_nl)
  then show False by (simp add: is_newline_def)
qed

text \<open>
  Claim C8 asks that a run of newlines is collapsed to one newline, so that a newline can
  survive preprocessing.  The first substitution has already turned every newline into a
  space: the text a, newline, b and the text a, newline, newline, b both become a, space, b.
\<close>

theorem newline_becomes_space:
  "preprocess_text (\<lambda>t. t) [97, 10, 98] = [97, 32, 98] \<and>
   preprocess_text (\<lambda>t. t) [97, 10, 10, 98] = [97, 32, 98]"
  by (simp add: preprocess_text_def normalize_NFC_def nfc_inert_def strip_def is_space_def
      is_newline_def)

section \<open>Writing a frame\<close>

lemma unat_byte_of_nat: "unat (word_of_nat k :: byte) = k mod 256"
  by (simp add: unsigned_of_nat take_bit_eq_mod)

lemma unpack_be_2: "unpack_be [a, b] = unat a * 256 + unat b"
  by (simp add: unpack_be_def)

lemma unpack_be_4:
  "unpack_be [a, b, c, d] = ((unat a * 256 + unat b) * 256 + unat c) * 256 + unat d"
  by (simp add: unpack_be_def)

lemma unpack_pack_H:
  assumes "pack_H n = Inr bs"
  shows "unpack_be bs = n"
proof -
  from assms have n: "n < 65536"
    and bs: "bs = [word_of_nat (n div 256), word_of_nat (n mod 256)]"
    by (auto simp: pack_H_def split: if_splits)
  from n have "n div 256 < 256" by (simp add: less_mult_imp_div_less)
  then have "unpack_be bs = n div 256 * 256 + n mod 256"
    by (simp add: bs unpack_be_2 unat_byte_of_nat)
  then show ?thesis by (simp only: div_mult_mod_eq)
qed

lemma unpack_pack_I:
  assumes "pack_I n = Inr bs"
  shows "unpack_be bs = n"
proof -
  from assms have n: "n < 4294967296"
    and bs: "bs = [word_of_nat (n div 16777216), word_of_nat (n div 65536 mod 256),
                   word_of_nat (n div 256 mod 256), word_of_nat (n mod 256)]"
    by (auto simp: pack_I_def split: if_splits)
  define a where "a = n div 256"
  define b where "b = a div 256"
  define d where "d = b div 256"
  have e2: "n div 65536 = b" by (simp add: a_def b_def div_mult2_eq)
  have e3: "n div 16777216 = d" by (simp add: a_def b_def d_def div_mult2_eq)
  from n have "d < 256" unfolding e3 [symmetric] by (simp add: less_mult_imp_div_less)
  then have "unpack_be bs = ((d * 256 + b mod 256) * 256 + a mod 256) * 256 + n mod 256"
    by (simp add: bs unpack_be_4 unat_byte_of_nat e2 e3 a_def)
  also have "d * 256 + b mod 256 = b" by (simp add: d_def)
  also have "b * 256 + a mod 256 = a" by (simp add: b_def)
  also have "a * 256 + n mod 256 = n" by (simp add: a_def)
  finally show ?thesis .
qed

lemma length_pack_H: "pack_H n = Inr bs \<Longrightarrow> length bs = 2"
  by (auto simp: pack_H_def split: if_splits)

lemma length_pack_I: "pack_I n = Inr bs \<Longrightarrow> length bs = 4"
  by (auto simp: pack_I_def split: if_splits)

lemma pack_H_ok: "n < 65536 \<Longrightarrow> \<exists>bs. pack_H n = Inr bs"
  by (simp add: pack_H_def)

lemma pack_I_ok: "n < 4294967296 \<Longrightarrow> \<exists>bs. pack_I n = Inr bs"
  by (simp add: pack_I_def)

lemma pack_codes_ok:
  "\<forall>code\<in>set codes. code < 65536 \<Longrightarrow>
     \<exists>bs. pack_codes codes = Inr bs \<and> length bs = 2 * length codes \<and>
          (\<forall>i<length codes. unpack_be (take 2 (drop (2 * i) bs)) = codes ! i)"
proof (induction codes)
  case Nil
  show ?case by simp
next
  case (Cons code codes)
  from Cons.prems obtain b where b: "pack_H code = Inr b"
    using pack_H_ok [of code] by auto
  from Cons obtain bs where bs: "pack_codes codes = Inr bs" "length bs = 2 * length codes"
    "\<forall>i<length codes. unpack_be (take 2 (drop (2 * i) bs)) = codes ! i"
    by auto
  have lb: "length b = 2" using b by (rule length_pack_H)
  have "unpack_be (take 2 (drop (2 * i) (b @ bs))) = (code # codes) ! i"
    if "i < length (code # codes)" for i
  proof (cases i)
    case 0
    then show ?thesis using lb unpack_pack_H [OF b] by simp
  next
    case (Suc j)
    with that have "j < length codes" by simp
    with bs(3) have "unpack_be (take 2 (drop (2 * j) bs)) = codes ! j" by simp
    with Suc lb show ?thesis by simp
  qed
  with b bs lb show ?case by simp
qed

text \<open>
  Claim C7, as amended.  For a list of \<open>n\<close> codes, each below 65536, the frame is: \<open>n\<close> as
  a 4-byte big-endian unsigned integer; then, in the same format, \<open>next_code - 256\<close> as the
  counter stands when the frame is written, that is the number of codes above the 256
  byte codes in the dictionary generation current at the end of the call (seed entries
  included, entries of earlier generations not); then each code as a 2-byte big-endian
  unsigned integer in emission order.  The frame is \<open>8 + 2 * n\<close> bytes long, and the frame
  reader gives the codes back.
\<close>

theorem frame_layout:
  assumes "length codes < 4294967296"
    and "\<forall>code\<in>set codes. code < 65536"
    and "next_code st - 256 < 4294967296"
  shows "\<exists>frame. encode_codes st codes = Inr frame \<and>
           length frame = 8 + 2 * length codes \<and>
           unpack_be (take 4 frame) = length codes \<and>
           unpack_be (take 4 (drop 4 frame)) = next_code st - 256 \<and>
           (\<forall>i<length codes. unpack_be (take 2 (drop (8 + 2 * i) frame)) = codes ! i) \<and>
           decode_codes frame = codes"
proof -
  from assms(2) obtain bs where bs: "pack_codes codes = Inr bs" "length bs = 2 * length codes"
    "\<forall>i<length codes. unpack_be (take 2 (drop (2 * i) bs)) = codes ! i"
    using pack_codes_ok by blast
  from assms(1) obtain h1 where h1: "pack_I (length codes) = Inr h1"
    using pack_I_ok by blast
  from assms(3) obtain h2 where h2: "pack_I (next_code st - 256) = Inr h2"
    using pack_I_ok by blast
  have l1: "length h1 = 4" and l2: "length h2 = 4"
    using h1 h2 by (auto dest: length_pack_I)
  let ?frame = "h1 @ h2 @ bs"
  have enc: "encode_codes st codes = Inr ?frame"
    by (simp add: encode_codes_def bs h1 h2)
  have len: "length ?frame = 8 + 2 * length codes"
    by (simp add: l1 l2 bs)
  have f1: "unpack_be (take 4 ?frame) = length codes"
    using unpack_pack_I [OF h1] by (simp add: l1)
  have f2: "unpack_be (take 4 (drop 4 ?frame)) = next_code st - 256"
    using unpack_pack_I [OF h2] by (simp add: l1 l2)
  have d8: "drop (8 + k) ?frame = drop k bs" for k
    by (simp add: l1 l2)
  have f3: "\<forall>i<length codes. unpack_be (take 2 (drop (8 + 2 * i) ?frame)) = codes ! i"
    using bs(3) by (simp only: d8)
  have d8': "drop 8 ?frame = bs" using d8 [of 0] by simp
  have ge: "\<not> length ?frame < 8" unfolding len by simp
  have m: "min (length codes) ((length ?frame - 8) div 2) = length codes"
    unfolding len by simp
  have "decode_codes ?frame =
      map (\<lambda>j. unpack_be (take 2 (drop (j * 2) bs))) [0..<length codes]"
    by (simp only: decode_codes_map ge if_False d8' f1 m)
  also have "\<dots> = map (\<lambda>j. codes ! j) [0..<length codes]"
    using bs(3) by (intro map_cong) (simp_all add: mult.commute)
  also have "\<dots> = codes" by (rule map_nth)
  finally have f4: "decode_codes ?frame = codes" .
  from enc len f1 f2 f3 f4 show ?thesis by blast
qed

text \<open>Five codes give an 18-byte frame whose first four bytes decode to 5.\<close>

theorem frame_layout_witness:
  "length [97, 98, 99, 100, 101 :: nat] < 4294967296 \<and>
   list_all (\<lambda>code. code < 65536) [97, 98, 99, 100, 101 :: nat] \<and>
   next_code (lzw77_reset_dictionary (LZW77Compressor 65536 Utf8)) - 256 < 4294967296 \<and>
   (\<exists>frame. encode_codes (lzw77_reset_dictionary (LZW77Compressor 65536 Utf8))
               [97, 98, 99, 100, 101] = Inr frame \<and>
            length frame = 18 \<and> unpack_be (take 4 frame) = 5)"
  using frame_layout [of "[97, 98, 99, 100, 101]"
      "lzw77_reset_dictionary (LZW77Compressor 65536 Utf8)"]
  by auto

lemma plain_258_fields:
  "max_dict_size (LZW77Compressor 258 Utf8) = 258"
  "encoding (LZW77Compressor 258 Utf8) = Utf8"
  "reset_dictionary (LZW77Compressor 258 Utf8) = lzw77_reset_dictionary (LZW77Compressor 258 Utf8)"
  by (simp_all add: LZW77Compressor_def reset_dictionary_def)

lemma compress_abcde_258:
  "lzw77_compress (\<lambda>t. t) (LZW77Compressor 258 Utf8) [97, 98, 99, 100, 101]
     = Inr [0, 0, 0, 5, 0, 0, 0, 1, 0, 97, 0, 98, 0, 99, 0, 100, 0, 101]"
  by (simp add: lzw77_compress_def normalize_NFC_def nfc_inert_def admit_char_def
      lookup_dictionary_def plain_258_fields dictionary_lzw77_reset_Utf8
      encode_codes_def pack_H_def pack_I_def)

lemma learned_abcde_258:
  "learned_entries (\<lambda>t. t) (LZW77Compressor 258 Utf8) [97, 98, 99, 100, 101] = 3"
  by (simp add: learned_entries_def normalize_NFC_def nfc_inert_def admit_char_def
      plain_258_fields dictionary_lzw77_reset_Utf8)

lemma compress_a_default:
  "hybrid_compress (\<lambda>t. t) (HybridLZW77Compressor 65536 Utf8) [97]
     = Inr [0, 0, 0, 1, 0, 0, 0, 131, 0, 97]"
  by (simp add: hybrid_compress_def lzw77_compress_def preprocess_text_def normalize_NFC_def
      nfc_inert_def strip_def is_space_def is_newline_def admit_char_def lookup_dictionary_def
      dict_default next_code_reset_default default_utf8_fields encode_codes_def pack_H_def
      pack_I_def)

lemma learned_a_default:
  "learned_entries (\<lambda>t. t) (HybridLZW77Compressor 65536 Utf8) [97] = 0"
  by (simp add: learned_entries_def normalize_NFC_def nfc_inert_def admit_char_def
      dict_default next_code_reset_default default_utf8_fields)

text \<open>
  Claim C7, as stated, fails in its second header field.  A plain compressor of
  dictionary size 258 reads the five characters \<open>abcde\<close>, learns three entries, resets
  once, and writes 1.  The hybrid compressor of default size reads the one character
  \<open>a\<close>, learns nothing, and writes 131, the number of seed entries.
\<close>

theorem header_field_is_not_learned_count:
  "lzw77_compress (\<lambda>t. t) (LZW77Compressor 258 Utf8) [97, 98, 99, 100, 101]
     = Inr [0, 0, 0, 5, 0, 0, 0, 1, 0, 97, 0, 98, 0, 99, 0, 100, 0, 101] \<and>
   learned_entries (\<lambda>t. t) (LZW77Compressor 258 Utf8) [97, 98, 99, 100, 101] = 3 \<and>
   hybrid_compress (\<lambda>t. t) (HybridLZW77Compressor 65536 Utf8) [97]
     = Inr [0, 0, 0, 1, 0, 0, 0, 131, 0, 97] \<and>
   learned_entries (\<lambda>t. t) (HybridLZW77Compressor 65536 Utf8) [97] = 0"
  by (simp only: compress_abcde_258 learned_abcde_258 compress_a_default learned_a_default
      simp_thms)

section \<open>Resolving a code\<close>

lemma resolve_known:
  "reverse_dictionary st code = Some s \<Longrightarrow> resolve_code st old_code code = Inr s"
  by (simp add: resolve_code_def)

lemma resolve_self_referential:
  "reverse_dictionary st code = None \<Longrightarrow> code = next_code st \<Longrightarrow>
   reverse_dictionary st old_code = Some previous \<Longrightarrow> previous \<noteq> [] \<Longrightarrow>
     resolve_code st old_code code = Inr (previous @ [hd previous])"
  by (cases previous) (simp_all add: resolve_code_def lookup_reverse_def first_symbol_def)

lemma resolve_invalid:
  "reverse_dictionary st code = None \<Longrightarrow> code \<noteq> next_code st \<Longrightarrow>
     resolve_code st old_code code = Inl (InvalidCode code)"
  by (simp add: resolve_code_def)

lemma decode_codes_Nil [simp]: "decode_codes [] = []"
  by (simp add: decode_codes_def)

lemma decompress_invalid_second:
  assumes "decode_codes data = old_code # code # codes"
    and "reverse_dictionary (reset_dictionary c) old_code = Some s"
    and "reverse_dictionary (reset_dictionary c) code = None"
    and "code \<noteq> next_code (reset_dictionary c)"
  shows "hybrid_decompress c data = Inl (DecompressionFailed (InvalidCode code))"
proof -
  from assms(1) have "data \<noteq> []" by auto
  with assms show ?thesis
    by (simp add: hybrid_decompress_def lzw77_decompress_def lookup_reverse_def resolve_invalid)
qed

text \<open>
  The case analysis of the loop in a state where the previous code is a key of the
  reverse dictionary: let its entry be \<open>previous\<close>, not empty.  A code in the reverse
  dictionary stands for its entry; failing that, the code equal to \<open>next_code\<close> stands
  for \<open>previous\<close> followed by its first symbol; any other code aborts the loop with
  \<open>InvalidCode\<close>, whatever codes follow.  A resolved string is appended to the result,
  and what the base class raises reaches the caller of the hybrid class wrapped in
  \<open>DecompressionFailed\<close>.  A state the loop reaches after a reset need not be of this
  kind.
\<close>

lemma decode_case_analysis:
  assumes "reverse_dictionary st old_code = Some previous" and "previous \<noteq> []"
  shows "(reverse_dictionary st code = Some s \<longrightarrow> resolve_code st old_code code = Inr s) \<and>
    (reverse_dictionary st code = None \<and> code = next_code st \<longrightarrow>
       resolve_code st old_code code = Inr (previous @ [hd previous])) \<and>
    (reverse_dictionary st code = None \<and> code \<noteq> next_code st \<longrightarrow>
       resolve_code st old_code code = Inl (InvalidCode code) \<and>
       decode_loop c st old_code result (code # codes) = Inl (InvalidCode code)) \<and>
    (resolve_code st old_code code = Inr string \<and> learn_entry c st old_code string = Inr st' \<longrightarrow>
       decode_loop c st old_code result (code # codes)
         = decode_loop c st' code (result @ [string]) codes) \<and>
    (lzw77_decompress c data = Inl e \<longrightarrow> hybrid_decompress c data = Inl (DecompressionFailed e)) \<and>
    (st = reset_dictionary c \<and> decode_codes data = old_code # code # codes \<and>
     reverse_dictionary st code = None \<and> code \<noteq> next_code st \<longrightarrow>
       hybrid_decompress c data = Inl (DecompressionFailed (InvalidCode code)))"
proof (intro conjI impI)
  assume "reverse_dictionary st code = Some s"
  then show "resolve_code st old_code code = Inr s" by (rule resolve_known)
next
  assume "reverse_dictionary st code = None \<and> code = next_code st"
  then have "reverse_dictionary st code = None" and "code = next_code st" by blast+
  then show "resolve_code st old_code code = Inr (previous @ [hd previous])"
    using assms by (rule resolve_self_referential)
next
  assume "reverse_dictionary st code = None \<and> code \<noteq> next_code st"
  then show "resolve_code st old_code code = Inl (InvalidCode code)"
    by (simp add: resolve_invalid)
next
  assume "reverse_dictionary st code = None \<and> code \<noteq> next_code st"
  then show "decode_loop c st old_code result (code # codes) = Inl (InvalidCode code)"
    by (simp add: resolve_invalid)
next
  assume "resolve_code st old_code code = Inr string \<and> learn_entry c st old_code string = Inr st'"
  then show "decode_loop c st old_code result (code # codes)
      = decode_loop c st' code (result @ [string]) codes"
    by simp
next
  assume "lzw77_decompress c data = Inl e"
  then show "hybrid_decompress c data = Inl (DecompressionFailed e)"
    by (simp add: hybrid_decompress_def)
next
  assume "st = reset_dictionary c \<and> decode_codes data = old_code # code # codes \<and>
    reverse_dictionary st code = None \<and> code \<noteq> next_code st"
  with assms(1) show "hybrid_decompress c data = Inl (DecompressionFailed (InvalidCode code))"
    by (auto intro: decompress_invalid_second)
qed

text \<open>
  The three cases right after a reset of the default compressor, with previous code 97:
  the known code 98, the pending code 387 and the invalid code 400.
\<close>

lemma decode_case_analysis_example:
  "reverse_dictionary (reset_dictionary (HybridLZW77Compressor 65536 Utf8)) 97 = Some [97] \<and>
   [97 :: nat] \<noteq> [] \<and>
   resolve_code (reset_dictionary (HybridLZW77Compressor 65536 Utf8)) 97 98 = Inr [98] \<and>
   resolve_code (reset_dictionary (HybridLZW77Compressor 65536 Utf8)) 97 387 = Inr [97, 97] \<and>
   resolve_code (reset_dictionary (HybridLZW77Compressor 65536 Utf8)) 97 400
     = Inl (InvalidCode 400) \<and>
   decode_loop (HybridLZW77Compressor 65536 Utf8)
     (reset_dictionary (HybridLZW77Compressor 65536 Utf8)) 97 [[97]] [400, 98]
     = Inl (InvalidCode 400) \<and>
   hybrid_decompress (HybridLZW77Compressor 65536 Utf8)
     [0, 0, 0, 3, 0, 0, 0, 0, 0, 97, 1, 144, 0, 98]
     = Inl (DecompressionFailed (InvalidCode 400))"
proof -
  let ?c = "HybridLZW77Compressor 65536 Utf8"
  let ?R = "reset_dictionary ?c"
  have prev: "reverse_dictionary ?R 97 = Some [97]" by (rule rev_default)
  have ne: "[97 :: nat] \<noteq> []" by simp
  have r98: "reverse_dictionary ?R 98 = Some [98]"
    by (simp add: reverse_reset_below decode_byte_def default_utf8_fields)
  have r387: "reverse_dictionary ?R 387 = None" by (rule rev_default)
  have r400: "reverse_dictionary ?R 400 = None"
    by (simp add: reverse_reset_None next_code_reset_default)
  have n: "next_code ?R = 387" by (rule next_code_reset_default)
  have codes: "decode_codes [0, 0, 0, 3, 0, 0, 0, 0, 0, 97, 1, 144, 0, 98] = [97, 400, 98]"
    by (simp add: decode_codes_map unpack_be_def)
  show ?thesis
    using decode_case_analysis [OF prev ne, of 98 "[98]" ?c "[[97]]" "[]"]
      decode_case_analysis [OF prev ne, of 387 "[]" ?c "[[97]]" "[]"]
      decode_case_analysis [OF prev ne, of 400 "[]" ?c "[[97]]" "[98]" "[]" ?R
        "[0, 0, 0, 3, 0, 0, 0, 0, 0, 97, 1, 144, 0, 98]"]
      prev r98 r387 r400 n codes
    by simp
qed

section \<open>Compression across a dictionary reset\<close>

lemma keys_belowD: "keys_below b st \<Longrightarrow> x \<in> set k \<Longrightarrow> b \<le> x \<Longrightarrow> dictionary st k = None"
  unfolding keys_below_def by (meson linorder_not_less)

lemma keys_below_add_entry:
  assumes "keys_below b st" and "\<forall>x\<in>set s. x < b'" and "b \<le> b'"
  shows "keys_below b' (add_entry s st)"
  unfolding keys_below_def
proof (intro allI impI)
  fix k x
  assume k: "dictionary (add_entry s st) k \<noteq> None" and x: "x \<in> set k"
  show "x < b'"
  proof (cases "k = s")
    case True
    with assms(2) x show ?thesis by simp
  next
    case False
    with k have "dictionary st k \<noteq> None" by simp
    with assms(1) x have "x < b" unfolding keys_below_def by blast
    with assms(3) show ?thesis by simp
  qed
qed

text \<open>
  One round of the loop on a character \<open>a\<close> that occurs in no key, with room for two
  entries: the character is admitted, the code of the running match is emitted, and the
  match extended by \<open>a\<close> is learned.
\<close>

lemma fresh_step:
  assumes kb: "keys_below a st"
    and cur: "dictionary st cur = Some code" "cur \<noteq> []"
    and room: "next_code st + 1 < max_dict_size c"
  shows "compress_loop c st cur res (a # rest) =
      compress_loop c (add_entry (cur @ [a]) (add_entry [a] st)) [a] (res @ [code]) rest"
proof -
  have none_a: "dictionary st [a] = None"
    using keys_belowD [OF kb, of a "[a]"] by simp
  have none_new: "dictionary st (cur @ [a]) = None"
    using keys_belowD [OF kb, of a "cur @ [a]"] by simp
  have cur_ne: "cur \<noteq> [a]"
    using cur(1) none_a by auto
  have new_ne: "cur @ [a] \<noteq> [a]"
    using cur(2) by simp
  have adm: "admit_char c st a = add_entry [a] st"
    using none_a room by (simp add: admit_char_def)
  show ?thesis
    using none_new cur_ne new_ne cur(1) room
    by (simp add: adm Let_def lookup_dictionary_def)
qed

text \<open>The same over \<open>n\<close> consecutive code points from \<open>a\<close> on.\<close>

lemma fresh_run:
  assumes "keys_below a st"
    and "dictionary st cur = Some code" "cur \<noteq> []"
    and "next_code st + 2 * n \<le> max_dict_size c"
  shows "\<exists>st' code' res'.
      compress_loop c st cur res ([a..<a + n] @ rest)
        = compress_loop c st' (if n = 0 then cur else [a + n - 1]) res' rest \<and>
      keys_below (a + n) st' \<and>
      dictionary st' (if n = 0 then cur else [a + n - 1]) = Some code' \<and>
      next_code st' = next_code st + 2 * n"
  using assms
proof (induction n arbitrary: a st cur code res)
  case 0
  then show ?case by auto
next
  case (Suc n)
  let ?st = "add_entry (cur @ [a]) (add_entry [a] st)"
  have split: "[a..<a + Suc n] = a # [Suc a..<Suc a + n]"
    by (simp add: upt_conv_Cons)
  have room: "next_code st + 1 < max_dict_size c" using Suc.prems(4) by simp
  have step: "compress_loop c st cur res (a # [Suc a..<Suc a + n] @ rest) =
      compress_loop c ?st [a] (res @ [code]) ([Suc a..<Suc a + n] @ rest)"
    using Suc.prems(1-3) room by (rule fresh_step)
  have kb1: "keys_below (Suc a) (add_entry [a] st)"
    using Suc.prems(1) by (rule keys_below_add_entry) simp_all
  have "\<forall>x\<in>set (cur @ [a]). x < Suc a"
    using Suc.prems(1,2) unfolding keys_below_def by fastforce
  with kb1 have kb2: "keys_below (Suc a) ?st"
    by (rule keys_below_add_entry) simp
  have d: "dictionary ?st [a] = Some (next_code st)"
    using Suc.prems(3) by simp
  have room': "next_code ?st + 2 * n \<le> max_dict_size c"
    using Suc.prems(4) by simp
  have last: "(if n = 0 then [a] else [Suc a + n - 1]) = [a + Suc n - 1]"
    by simp
  from Suc.IH [OF kb2 d _ room', of "res @ [code]"]
  obtain st' code' res' where
    run: "compress_loop c ?st [a] (res @ [code]) ([Suc a..<Suc a + n] @ rest)
            = compress_loop c st' [a + Suc n - 1] res' rest"
    and inv: "keys_below (Suc a + n) st'" "dictionary st' [a + Suc n - 1] = Some code'"
      "next_code st' = next_code ?st + 2 * n"
    unfolding last by auto
  have "compress_loop c st cur res ([a..<a + Suc n] @ rest)
      = compress_loop c st' [a + Suc n - 1] res' rest"
    unfolding split using step run by simp
  moreover have "keys_below (a + Suc n) st'" using inv(1) by simp
  moreover have "next_code st' = next_code st + 2 * Suc n" using inv(3) by simp
  ultimately show ?case using inv(2) by auto
qed

lemma newline_is_space: "is_newline x \<Longrightarrow> is_space x"
  by (simp add: is_newline_def is_space_def)

lemma dropWhile_none: "\<forall>x\<in>set xs. \<not> P x \<Longrightarrow> dropWhile P xs = xs"
  by (cases xs) simp_all

lemma strip_no_space: "\<forall>x\<in>set s. \<not> is_space x \<Longrightarrow> strip s = s"
  by (simp add: strip_def dropWhile_none)

lemma preprocess_text_inert:
  assumes "list_all nfc_inert s" and "\<forall>x\<in>set s. \<not> is_space x"
  shows "preprocess_text other s = s"
proof -
  have nfc: "normalize_NFC other s = s" using assms(1) by (simp add: normalize_NFC_def)
  have ws: "re_sub_runs is_space 32 s = s" using assms(2) by (rule re_sub_runs_id)
  have "\<forall>x\<in>set s. \<not> is_newline x"
    using assms(2) newline_is_space by blast
  then have nl: "re_sub_runs is_newline 10 s = s" by (rule re_sub_runs_id)
  show ?thesis by (simp add: preprocess_text_def nfc ws nl strip_no_space assms(2))
qed

lemma seed_symbols_low: "\<forall>p\<in>set all_patterns. \<forall>x\<in>set p. x < 983040"
  unfolding all_patterns_def common_words_def common_patterns_def by simp

lemma keys_below_reset_default:
  "keys_below 983040 (reset_dictionary (HybridLZW77Compressor 65536 Utf8))"
  unfolding keys_below_def
proof (intro allI impI)
  let ?c = "HybridLZW77Compressor 65536 Utf8"
  fix k x
  assume k: "dictionary (reset_dictionary ?c) k \<noteq> None" and x: "x \<in> set k"
  show "x < 983040"
  proof (cases "k \<in> set all_patterns")
    case True
    with x seed_symbols_low show ?thesis by blast
  next
    case False
    then have "dictionary (reset_dictionary ?c) k = dictionary (lzw77_reset_dictionary ?c) k"
      by (intro dictionary_reset_other) (simp_all add: default_utf8_fields)
    with k have "dictionary (lzw77_reset_dictionary ?c) k \<noteq> None" by simp
    with x show ?thesis
      by (auto simp: dictionary_lzw77_reset_Utf8 default_utf8_fields
          split: list.splits if_splits)
  qed
qed

text \<open>
  A text of \<open>n + 2\<close> consecutive fresh code points that fills the dictionary exactly with
  its last but one: the last character finds the dictionary full, the dictionary is
  reset, and the running match, an entry of the old generation, is no key any more.
\<close>

lemma overflow_raises:
  fixes a n :: nat
  assumes kbR: "keys_below a (reset_dictionary c)"
    and full: "next_code (reset_dictionary c) + 1 + 2 * n = max_dict_size c"
  shows "compress_loop c (reset_dictionary c) [] [] ([a..<a + n + 2])
           = Inl (KeyError_dictionary [a + n])"
proof -
  let ?R = "reset_dictionary c"
  let ?st1 = "add_entry [a] ?R"
  have split: "[a..<a + n + 2] = a # [Suc a..<Suc a + n] @ [Suc a + n]"
  proof -
    have "[a..<a + n + 2] = [a..<Suc (Suc a + n)]" by simp
    also have "\<dots> = [a..<Suc a + n] @ [Suc a + n]" by simp
    also have "[a..<Suc a + n] = a # [Suc a..<Suc a + n]" by (simp add: upt_conv_Cons)
    finally show ?thesis by simp
  qed
  have none_a: "dictionary ?R [a] = None"
    using keys_belowD [OF kbR, of a "[a]"] by simp
  have room0: "next_code ?R < max_dict_size c" using full by simp
  have first: "compress_loop c ?R [] [] (a # rest) = compress_loop c ?st1 [a] [] rest" for rest
    using none_a room0 by (simp add: admit_char_def Let_def)
  have kb1: "keys_below (Suc a) ?st1"
    using kbR by (rule keys_below_add_entry) simp_all
  have d1: "dictionary ?st1 [a] = Some (next_code ?R)" by simp
  have room1: "next_code ?st1 + 2 * n \<le> max_dict_size c" using full by simp
  from fresh_run [OF kb1 d1 _ room1, of "[]" "[Suc a + n]"]
  obtain st' code' res' where
    run: "compress_loop c ?st1 [a] [] ([Suc a..<Suc a + n] @ [Suc a + n])
            = compress_loop c st' (if n = 0 then [a] else [Suc a + n - 1]) res' [Suc a + n]"
    and kb': "keys_below (Suc a + n) st'"
    and d': "dictionary st' (if n = 0 then [a] else [Suc a + n - 1]) = Some code'"
    and nc': "next_code st' = next_code ?st1 + 2 * n"
    by auto
  have cur: "(if n = 0 then [a] else [Suc a + n - 1]) = [a + n]" by simp
  have full': "\<not> next_code st' < max_dict_size c" using nc' full by simp
  have none_last: "dictionary st' [Suc (a + n)] = None"
    using keys_belowD [OF kb', of "Suc (a + n)" "[Suc (a + n)]"] by simp
  have none_last_R: "dictionary ?R [Suc (a + n)] = None"
    using keys_belowD [OF kbR, of "Suc (a + n)" "[Suc (a + n)]"] by simp
  have adm: "admit_char c st' (Suc (a + n)) = add_entry [Suc (a + n)] ?R"
    using none_last full' none_last_R by (simp add: admit_char_def Let_def)
  have none_new: "dictionary ?R [a + n, Suc (a + n)] = None"
    using keys_belowD [OF kbR, of "Suc (a + n)" "[a + n, Suc (a + n)]"] by simp
  have none_cur: "dictionary ?R [a + n] = None"
    using keys_belowD [OF kbR, of "a + n" "[a + n]"] by simp
  have last: "compress_loop c st' [a + n] res' [Suc (a + n)] = Inl (KeyError_dictionary [a + n])"
    using none_new none_cur by (simp add: adm Let_def lookup_dictionary_def)
  have "compress_loop c ?R [] [] (a # [Suc a..<Suc a + n] @ [Suc a + n])
      = compress_loop c ?st1 [a] [] ([Suc a..<Suc a + n] @ [Suc a + n])"
    by (rule first)
  also have "\<dots> = compress_loop c st' [a + n] res' [Suc a + n]"
    using run unfolding cur .
  also have "\<dots> = Inl (KeyError_dictionary [a + n])"
    using last by simp
  finally show ?thesis unfolding split .
qed

lemma fresh_text_plain:
  fixes a b :: nat
  assumes "983040 \<le> a" and "b \<le> 1048574"
  shows "list_all nfc_inert [a..<b]" and "\<forall>x\<in>set [a..<b]. \<not> is_space x"
  using assms by (auto simp: list_all_iff nfc_inert_def is_space_def)

lemma hybrid_overflow_raises:
  fixes a n :: nat
  assumes kbR: "keys_below a (reset_dictionary c)"
    and full: "next_code (reset_dictionary c) + 1 + 2 * n = max_dict_size c"
    and lo: "983040 \<le> a" and hi: "a + n + 2 \<le> 1048574"
  shows "hybrid_compress other c [a..<a + n + 2]
           = Inl (CompressionFailed (KeyError_dictionary [a + n]))"
proof -
  let ?t = "[a..<a + n + 2]"
  have pre: "preprocess_text other ?t = ?t"
    using fresh_text_plain [OF lo hi] by (rule preprocess_text_inert)
  have nfc: "normalize_NFC other ?t = ?t"
    using fresh_text_plain(1) [OF lo hi] by (simp add: normalize_NFC_def)
  have ne: "?t \<noteq> []" by simp
  have loop: "compress_loop c (reset_dictionary c) [] [] ?t = Inl (KeyError_dictionary [a + n])"
    using kbR full by (rule overflow_raises)
  show ?thesis
    unfolding hybrid_compress_def lzw77_compress_def pre nfc loop using ne by simp
qed

lemma compress_raises_default:
  "hybrid_compress (\<lambda>t. t) (HybridLZW77Compressor 65536 Utf8) [983040..<1015616]
     = Inl (CompressionFailed (KeyError_dictionary [1015614]))"
proof -
  let ?c = "HybridLZW77Compressor 65536 Utf8"
  have full: "next_code (reset_dictionary ?c) + 1 + 2 * 32574 = max_dict_size ?c"
    by (simp add: next_code_reset_default default_utf8_fields)
  have e1: "(983040::nat) + 32574 + 2 = 1015616" by simp
  have e2: "(983040::nat) + 32574 = 1015614" by simp
  have "hybrid_compress (\<lambda>t. t) ?c [983040..<983040 + 32574 + 2]
      = Inl (CompressionFailed (KeyError_dictionary [983040 + 32574]))"
    using keys_below_reset_default full by (rule hybrid_overflow_raises) simp_all
  then have "hybrid_compress (\<lambda>t. t) ?c [983040..<1015616]
      = Inl (CompressionFailed (KeyError_dictionary [983040 + 32574]))"
    unfolding e1 .
  then show ?thesis unfolding e2 .
qed

lemma fold_seed_full:
  "max_dict_size c \<le> next_code st \<Longrightarrow> fold (seed_pattern c) pats st = st"
  by (induction pats) (simp_all add: seed_pattern_def)

lemma reset_256:
  "reset_dictionary (HybridLZW77Compressor 256 Utf8)
     = lzw77_reset_dictionary (HybridLZW77Compressor 256 Utf8)"
  by (simp add: reset_dictionary_def hybrid_reset_dictionary_def HybridLZW77Compressor_def
      fold_seed_full)

lemma hybrid_256_fields:
  "max_dict_size (HybridLZW77Compressor 256 Utf8) = 256"
  "encoding (HybridLZW77Compressor 256 Utf8) = Utf8"
  by (simp_all add: HybridLZW77Compressor_def)

lemma compress_raises_256:
  "hybrid_compress (\<lambda>t. t) (HybridLZW77Compressor 256 Utf8) [97, 241]
     = Inl (CompressionFailed (KeyError_dictionary [241]))"
  by (simp add: hybrid_compress_def lzw77_compress_def preprocess_text_def normalize_NFC_def
      nfc_inert_def strip_def is_space_def is_newline_def admit_char_def lookup_dictionary_def
      reset_256 hybrid_256_fields dictionary_lzw77_reset_Utf8)

text \<open>
  Claim C2 asks that \<open>compress\<close> returns a frame for every text, however often the
  dictionary is reset, and that the lookup of the running match succeeds after a reset.
  With the default dictionary size and UTF-8, the text of the 32576 private-use
  characters U+F0000 to U+F7F3F fills the dictionary with its last but one character;
  on the last one the dictionary is reset and the lookup of the running match U+F7F3E
  raises \<open>KeyError\<close>.  With dictionary size 256 the two characters U+0061 U+00F1 do the
  same: the second is admitted after a reset, a second reset discards it, and the final
  lookup of the running match raises.
\<close>

theorem compress_raises_after_reset:
  "hybrid_compress (\<lambda>t. t) (HybridLZW77Compressor 65536 Utf8) [983040..<1015616]
     = Inl (CompressionFailed (KeyError_dictionary [1015614])) \<and>
   hybrid_compress (\<lambda>t. t) (HybridLZW77Compressor 256 Utf8) [97, 241]
     = Inl (CompressionFailed (KeyError_dictionary [241]))"
  by (simp only: compress_raises_default compress_raises_256 simp_thms)

section \<open>Decoding across a dictionary reset\<close>

lemma decode_codes_stale_pending:
  "decode_codes [0, 0, 0, 5, 0, 0, 0, 0, 0, 97, 0, 98, 0, 99, 1, 1, 1, 1] = [97, 98, 99, 257, 257]"
  by (simp add: decode_codes_map unpack_be_def)

lemma decode_codes_stale_known:
  "decode_codes [0, 0, 0, 5, 0, 0, 0, 0, 0, 97, 0, 98, 0, 99, 1, 0, 1, 1] = [97, 98, 99, 256, 257]"
  by (simp add: decode_codes_map unpack_be_def)

lemma decompress_stale_pending:
  "lzw77_decompress (LZW77Compressor 258 Utf8)
     [0, 0, 0, 5, 0, 0, 0, 0, 0, 97, 0, 98, 0, 99, 1, 1, 1, 1] = Inl (KeyError_reverse 257)"
  by (simp add: lzw77_decompress_def decode_codes_stale_pending lookup_reverse_def
      resolve_code_def learn_entry_def first_symbol_def plain_258_fields reverse_lzw77_reset
      decode_byte_def)

lemma decompress_stale_known:
  "lzw77_decompress (LZW77Compressor 258 Utf8)
     [0, 0, 0, 5, 0, 0, 0, 0, 0, 97, 0, 98, 0, 99, 1, 0, 1, 1]
     = Inr [97, 98, 99, 97, 98, 99, 97, 99]"
  by (simp add: lzw77_decompress_def decode_codes_stale_known lookup_reverse_def
      resolve_code_def learn_entry_def first_symbol_def plain_258_fields reverse_lzw77_reset
      decode_byte_def)

lemma decode_codes_stale_hybrid:
  "decode_codes [0, 0, 0, 4, 0, 0, 0, 0, 0, 97, 0, 98, 1, 1, 1, 1] = [97, 98, 257, 257]"
  by (simp add: decode_codes_map unpack_be_def)

lemma decompress_stale_hybrid:
  "hybrid_decompress (HybridLZW77Compressor 256 Utf8)
     [0, 0, 0, 4, 0, 0, 0, 0, 0, 97, 0, 98, 1, 1, 1, 1]
     = Inl (DecompressionFailed (KeyError_reverse 257))"
  by (simp add: hybrid_decompress_def lzw77_decompress_def decode_codes_stale_hybrid
      lookup_reverse_def resolve_code_def learn_entry_def first_symbol_def reset_256
      hybrid_256_fields reverse_lzw77_reset decode_byte_def)

text \<open>
  Claim C5 asks that a code which is no key and equals \<open>next_code\<close> is resolved to the
  previous string followed by its first symbol, and that only a code which is neither
  aborts the decoding, with \<open>InvalidCode\<close>.  The loop reads the previous string as
  \<open>reverse_dictionary[old_code]\<close>, and after it has reset the dictionary \<open>old_code\<close> is a
  code of the discarded generation.  A plain decoder of dictionary size 258 on the codes
  97, 98, 99, 257, 257 resets at the fourth code; the fifth equals \<open>next_code\<close>, but 257
  is no key any more and the lookup raises \<open>KeyError\<close>.  The hybrid decoder of size 256
  does the same on 97, 98, 257, 257.  On 97, 98, 99, 256, 257 the plain decoder resolves
  the last code to the three symbols \<open>cac\<close>, built from the entry that the fresh
  dictionary holds under 256, although the previous string was \<open>ab\<close>.
\<close>

theorem decode_after_reset_reads_stale_code:
  "lzw77_decompress (LZW77Compressor 258 Utf8)
     [0, 0, 0, 5, 0, 0, 0, 0, 0, 97, 0, 98, 0, 99, 1, 1, 1, 1] = Inl (KeyError_reverse 257) \<and>
   hybrid_decompress (HybridLZW77Compressor 256 Utf8)
     [0, 0, 0, 4, 0, 0, 0, 0, 0, 97, 0, 98, 1, 1, 1, 1]
     = Inl (DecompressionFailed (KeyError_reverse 257)) \<and>
   lzw77_decompress (LZW77Compressor 258 Utf8)
     [0, 0, 0, 5, 0, 0, 0, 0, 0, 97, 0, 98, 0, 99, 1, 0, 1, 1]
     = Inr [97, 98, 99, 97, 98, 99, 97, 99]"
  by (simp only: decompress_stale_pending decompress_stale_hybrid decompress_stale_known
      simp_thms)

section \<open>Compression statistics\<close>

text \<open>The floats of the example: 400 / 1000, 1 minus that, and the product with 100.\<close>

lemma double_two_fifths: "to_double (2 / 5) = 3602879701896397 / 9007199254740992"
  by code_simp

lemma double_three_fifths:
  "to_double (1 - 3602879701896397 / 9007199254740992) = 5404319552844595 / 9007199254740992"
  by code_simp

lemma double_sixty: "to_double (5404319552844595 / 9007199254740992 * 100) = 60"
  by code_simp

lemma round_2_sixty: "round_2 60 = 60"
  by code_simp

lemma ratio_400_1000:
  "round_2 (float_mul (float_sub 1 (int_truediv 400 1000)) 100) = 60"
proof -
  have "int_truediv 400 1000 = to_double (2 / 5)" by (simp add: int_truediv_def)
  then show ?thesis
    by (simp only: float_sub_def float_mul_def double_two_fifths double_three_fifths
        double_sixty round_2_sixty)
qed

text \<open>
  Claim C9.  For a text that the configured encoding can encode, the statistics hold:
  under \<open>original_size\<close> the number of bytes of the encoded text, under
  \<open>compressed_size\<close> the number of bytes of the frame; when the first is 0, the ratio 0
  and the saving 0, with no division; otherwise under \<open>compression_ratio\<close> the float
  \<open>round((1 - compressed_size / original_size) * 100, 2)\<close> and under \<open>space_saved\<close>
  the difference of the two sizes.  An original of 1000 bytes and a frame of 400 bytes
  give the ratio 60.0 and the saving 600.
\<close>

theorem stats_fields:
  assumes "str_encode (encoding c) original_text = Inr encoded"
  shows "\<exists>r. get_compression_stats c original_text compressed_data = Inr r \<and>
     original_size r = length encoded \<and>
     compressed_size r = length compressed_data \<and>
     (length encoded = 0 \<longrightarrow> compression_ratio r = 0 \<and> space_saved r = 0) \<and>
     (length encoded \<noteq> 0 \<longrightarrow>
        compression_ratio r =
          round_2 (float_mul
            (float_sub 1 (int_truediv (length compressed_data) (length encoded))) 100) \<and>
        space_saved r = int (length encoded) - int (length compressed_data)) \<and>
     (length encoded = 1000 \<and> length compressed_data = 400 \<longrightarrow>
        compression_ratio r = 60 \<and> space_saved r = 600)"
proof (cases "length encoded = 0")
  case True
  with assms show ?thesis by (simp add: get_compression_stats_def)
next
  case False
  with assms show ?thesis
    by (auto simp add: get_compression_stats_def ratio_400_1000)
qed

lemma encode_chars_ascii:
  "\<forall>x\<in>set s. x < 128 \<Longrightarrow> encode_chars utf8_char s = Inr (map word_of_nat s)"
  by (induction s) (simp_all add: utf8_char_def)

lemma str_encode_ascii_run:
  "str_encode Utf8 (replicate n 97) = Inr (replicate n 97)"
proof -
  have "encode_chars utf8_char (replicate n 97) = Inr (map word_of_nat (replicate n 97))"
    by (rule encode_chars_ascii) simp
  then show ?thesis by (simp add: str_encode_def)
qed

lemma stats_eqI:
  "original_size r = a \<Longrightarrow> compressed_size r = b \<Longrightarrow> compression_ratio r = q \<Longrightarrow>
   space_saved r = d \<Longrightarrow>
     r = \<lparr>original_size = a, compressed_size = b, compression_ratio = q, space_saved = d\<rparr>"
  by (cases r) simp

text \<open>
  A thousand letters \<open>a\<close> under UTF-8 against a frame of 400 bytes, and the empty text
  against the same frame.
\<close>

theorem stats_fields_witness:
  "str_encode (encoding (HybridLZW77Compressor 65536 Utf8)) (replicate 1000 97)
     = Inr (replicate 1000 97) \<and>
   get_compression_stats (HybridLZW77Compressor 65536 Utf8) (replicate 1000 97) (replicate 400 0)
     = Inr \<lparr>original_size = 1000, compressed_size = 400, compression_ratio = 60,
            space_saved = 600\<rparr> \<and>
   str_encode (encoding (HybridLZW77Compressor 65536 Utf8)) [] = Inr [] \<and>
   get_compression_stats (HybridLZW77Compressor 65536 Utf8) [] (replicate 400 0)
     = Inr \<lparr>original_size = 0, compressed_size = 400, compression_ratio = 0, space_saved = 0\<rparr>"
proof -
  let ?c = "HybridLZW77Compressor 65536 Utf8"
  have enc: "str_encode (encoding ?c) (replicate 1000 97) = Inr (replicate 1000 97)"
    by (simp only: default_utf8_fields str_encode_ascii_run)
  have enc0: "str_encode (encoding ?c) [] = Inr []"
    by (simp add: default_utf8_fields str_encode_def)
  from stats_fields [OF enc, of "replicate 400 0"]
  obtain r where r: "get_compression_stats ?c (replicate 1000 97) (replicate 400 0) = Inr r"
    and "original_size r = 1000" "compressed_size r = 400"
    and "compression_ratio r = 60" "space_saved r = 600"
    by (auto simp only: length_replicate)
  then have "r = \<lparr>original_size = 1000, compressed_size = 400, compression_ratio = 60,
      space_saved = 600\<rparr>"
    by (intro stats_eqI)
  with r have one: "get_compression_stats ?c (replicate 1000 97) (replicate 400 0)
     = Inr \<lparr>original_size = 1000, compressed_size = 400, compression_ratio = 60,
            space_saved = 600\<rparr>"
    by simp
  from stats_fields [OF enc0, of "replicate 400 0"]
  obtain r0 where r0: "get_compression_stats ?c [] (replicate 400 0) = Inr r0"
    and "original_size r0 = 0" "compressed_size r0 = 400"
    and "compression_ratio r0 = 0" "space_saved r0 = 0"
    by (auto simp only: length_replicate list.size)
  then have "r0 = \<lparr>original_size = 0, compressed_size = 400, compression_ratio = 0,
      space_saved = 0\<rparr>"
    by (intro stats_eqI)
  with r0 have two: "get_compression_stats ?c [] (replicate 400 0)
     = Inr \<lparr>original_size = 0, compressed_size = 400, compression_ratio = 0, space_saved = 0\<rparr>"
    by simp
  from enc one enc0 two show ?thesis by (intro conjI)
qed

end
